theory Spec2Isabelle
  imports
    Complex_Main
    "HOL-Library.Sublist"
    "HOL-Library.Char_ord"
    "HOL-Library.List_Lexorder"
    "HOL-Library.Option_ord"
    "HOL-Library.Product_Lexorder"
begin

section \<open>Cells, errors and string helpers\<close>

text \<open>
  The module \<^verbatim>\<open>wrangle.py\<close> is a pandas pipeline. A data frame is modelled as the list
  of its rows (in index order), a row as a record with one field per column. The frames
  handed to the functions are the results of \<^verbatim>\<open>pd.read_csv\<close>: reading and parsing the
  files is outside the model, everything the module does with the parsed frames is inside.

  A cell of a text (object) column is a string, a missing value (pandas' NaN), or the
  integer 0 that \<^verbatim>\<open>fillna(0)\<close> writes into text columns. A cell of a numeric column
  of a data file is a finite number or missing (\<open>real option\<close>). Arithmetic is exact:
  the rounding of IEEE doubles is not modelled, and neither are signed zeros.
\<close>

datatype obj = Str string | Zero | NA

datatype error =
    UnboundLocalError
  | KeyError
  | AttributeError
  | MergeError
  | ValueError
  | IndexError

text \<open>\<^verbatim>\<open>pat in s\<close> for Python strings: \<open>pat\<close> occurs in \<open>s\<close> as a contiguous block.\<close>

fun contains :: "string \<Rightarrow> string \<Rightarrow> bool" where
  "contains pat [] = (pat = [])"
| "contains pat (c # cs) = (prefix pat (c # cs) \<or> contains pat cs)"

text \<open>
  \<^verbatim>\<open>s.replace(pat, rep)\<close> for a pattern without regular-expression meta characters:
  every occurrence, scanning from the left, occurrences not overlapping. The counter is
  the number of characters of a matched occurrence still to be skipped.
\<close>

fun replace_from :: "string \<Rightarrow> string \<Rightarrow> nat \<Rightarrow> string \<Rightarrow> string" where
  "replace_from pat rep k [] = []"
| "replace_from pat rep (Suc k) (c # cs) = replace_from pat rep k cs"
| "replace_from pat rep 0 (c # cs) =
     (if prefix pat (c # cs) then rep @ replace_from pat rep (length pat - 1) cs
      else c # replace_from pat rep 0 cs)"

definition replace_str :: "string \<Rightarrow> string \<Rightarrow> string \<Rightarrow> string" where
  "replace_str pat rep s = replace_from pat rep 0 s"

text \<open>\<^verbatim>\<open>s.upper()\<close> on ASCII letters; other characters are left as they are.\<close>

definition upper_char :: "char \<Rightarrow> char" where
  "upper_char c =
     (case map_of (zip ''abcdefghijklmnopqrstuvwxyz'' ''ABCDEFGHIJKLMNOPQRSTUVWXYZ'') c of
        None \<Rightarrow> c
      | Some u \<Rightarrow> u)"

definition upper :: "string \<Rightarrow> string" where
  "upper s = map upper_char s"

text \<open>\<^verbatim>\<open>s.strip(chars)\<close>: leading and trailing characters of the set are removed.\<close>

definition strip_chars :: "string \<Rightarrow> string \<Rightarrow> string" where
  "strip_chars cs s =
     rev (dropWhile (\<lambda>c. c \<in> set cs) (rev (dropWhile (\<lambda>c. c \<in> set cs) s)))"

definition PUNCTUATION :: string where
  "PUNCTUATION = ''!@#$%^&*.''"

text \<open>
  The \<^verbatim>\<open>.str\<close> accessor of a column: it exists only for a column of object dtype. A
  column read from a file in which every cell is missing has dtype float64, and the
  accessor raises AttributeError. On a cell that is not a string the string methods
  give NaN.
\<close>

definition object_dtype :: "obj list \<Rightarrow> bool" where
  "object_dtype col = (col = [] \<or> (\<exists>x \<in> set col. x \<noteq> NA))"

fun str_map :: "(string \<Rightarrow> string) \<Rightarrow> obj \<Rightarrow> obj" where
  "str_map f (Str s) = Str (f s)"
| "str_map f Zero = NA"
| "str_map f NA = NA"

section \<open>Energy and emissions cleaner\<close>

text \<open>
  The two annual files, after \<^verbatim>\<open>read_csv\<close> and the normalisation of the column names
  (lower case, blanks and newlines to underscores). The generation file has the columns
  year, state, type_of_producer, energy_source, generation_(megawatthours); the emission
  file has year, state, producer_type, energy_source and the three pollutants.
\<close>

record gen_raw =
  g_year :: "int option"
  g_state :: obj
  g_type_of_producer :: obj
  g_energy_source :: obj
  g_generation :: "real option"

record emi_raw =
  e_year :: "int option"
  e_state :: obj
  e_producer_type :: obj
  e_energy_source :: obj
  e_co2 :: "real option"
  e_so2 :: "real option"
  e_nox :: "real option"

datatype eng_file = GenFile "gen_raw list" | EmiFile "emi_raw list"

record gen_row =
  gn_year :: "int option"
  gn_state :: obj
  gn_src :: obj
  gn_gen_mwh :: "real option"
  gn_renew :: string

record emi_row =
  em_year :: "int option"
  em_state :: obj
  em_src :: obj
  em_co2_tons :: "real option"
  em_so2_tons :: "real option"
  em_nox_tons :: "real option"

datatype eng_clean = GenClean "gen_row list" | EmiClean "emi_row list"

definition TOTAL_INDUSTRY :: string where
  "TOTAL_INDUSTRY = ''Total Electric Power Industry''"

text \<open>The three replacements of lines 188 to 193, in their order.\<close>

definition canon_src :: "string \<Rightarrow> string" where
  "canon_src s =
     replace_str ''Solar Thermal and Photovoltaic'' ''Solar''
       (replace_str ''Wood and Wood Derived Fuels'' ''Wood Derived Fuels''
         (replace_str ''Hydroelectric Conventional'' ''Hydroelectric'' s))"

definition renew_of :: "obj \<Rightarrow> string" where
  "renew_of s =
     (if s = Str ''Coal'' \<or> s = Str ''Natural Gas'' \<or> s = Str ''Petroleum''
      then ''Nonrenewable'' else ''Renewable'')"

text \<open>
  The generation branch (lines 164 to 174) followed by the common tail (lines 185 to
  194). The mask of the totals is taken before the rows of source "Total" are dropped
  and is aligned on the index afterwards, so a row is kept when both tests hold.
  On a frame with the emission columns the lookup of \<^verbatim>\<open>type_of_producer\<close> raises
  KeyError.
\<close>

definition generation_branch :: "eng_file \<Rightarrow> error + eng_clean" where
  "generation_branch d =
     (case d of
        EmiFile _ \<Rightarrow> Inl KeyError
      | GenFile df \<Rightarrow>
          let kept = filter (\<lambda>r. g_type_of_producer r = Str TOTAL_INDUSTRY)
                       (filter (\<lambda>r. g_energy_source r \<noteq> Str ''Total'') df)
          in if \<not> object_dtype (map g_energy_source df) \<or> \<not> object_dtype (map g_state df)
             then Inl AttributeError
             else Inr (GenClean (map (\<lambda>r.
                    \<lparr> gn_year = g_year r,
                      gn_state = str_map upper (g_state r),
                      gn_src = str_map canon_src (g_energy_source r),
                      gn_gen_mwh = g_generation r,
                      gn_renew = renew_of (g_energy_source r) \<rparr>) kept)))"

text \<open>The emission branch (lines 177 to 183) followed by the common tail.\<close>

definition emission_branch :: "eng_file \<Rightarrow> error + eng_clean" where
  "emission_branch d =
     (case d of
        GenFile _ \<Rightarrow> Inl KeyError
      | EmiFile df \<Rightarrow>
          let kept = filter (\<lambda>r. e_producer_type r = Str TOTAL_INDUSTRY) df
          in if \<not> object_dtype (map e_energy_source df) \<or> \<not> object_dtype (map e_state df)
             then Inl AttributeError
             else Inr (EmiClean (map (\<lambda>r.
                    \<lparr> em_year = e_year r,
                      em_state = str_map upper (e_state r),
                      em_src = str_map canon_src (e_energy_source r),
                      em_co2_tons = e_co2 r,
                      em_so2_tons = e_so2 r,
                      em_nox_tons = e_nox r \<rparr>) kept)))"

text \<open>
  \<^verbatim>\<open>load_clean_eng(filename)\<close>, with the frame read from the file as second argument.
  When the name holds neither word, \<^verbatim>\<open>totals_mask\<close> and \<^verbatim>\<open>keep_cols\<close> were never
  assigned and line 185 raises UnboundLocalError.
\<close>

definition load_clean_eng :: "string \<Rightarrow> eng_file \<Rightarrow> error + eng_clean" where
  "load_clean_eng filename d =
     (if contains ''generation'' filename then generation_branch d
      else if contains ''emission'' filename then emission_branch d
      else Inl UnboundLocalError)"

section \<open>Merges\<close>

text \<open>
  \<^verbatim>\<open>DataFrame.merge\<close> on key columns, by the test \<open>on\<close> that the keys of a left
  and a right row are equal (pandas lets a missing key match a missing key, so the test
  is plain equality of the cells). An inner and a left merge keep the order of the left
  rows, a right merge the order of the right rows; the matches of one row come in the
  order of the other frame. A row without a match is dropped by the inner merge and kept
  with the other side missing by the outer ones.
\<close>

definition merge_inner :: "('l \<Rightarrow> 'r \<Rightarrow> bool) \<Rightarrow> 'l list \<Rightarrow> 'r list \<Rightarrow> ('l \<times> 'r) list" where
  "merge_inner on ls rs = concat (map (\<lambda>l. map (\<lambda>r. (l, r)) (filter (on l) rs)) ls)"

definition merge_left :: "('l \<Rightarrow> 'r \<Rightarrow> bool) \<Rightarrow> 'l list \<Rightarrow> 'r list \<Rightarrow> ('l \<times> 'r option) list" where
  "merge_left on ls rs =
     concat (map (\<lambda>l. case filter (on l) rs of
                          [] \<Rightarrow> [(l, None)]
                        | ms \<Rightarrow> map (\<lambda>r. (l, Some r)) ms) ls)"

definition merge_right :: "('l \<Rightarrow> 'r \<Rightarrow> bool) \<Rightarrow> 'l list \<Rightarrow> 'r list \<Rightarrow> ('l option \<times> 'r) list" where
  "merge_right on ls rs =
     concat (map (\<lambda>r. case filter (\<lambda>l. on l r) ls of
                          [] \<Rightarrow> [(None, r)]
                        | ms \<Rightarrow> map (\<lambda>l. (Some l, r)) ms) rs)"

text \<open>
  Columns of the same name on both sides get the suffixes \<^verbatim>\<open>_x\<close> and \<^verbatim>\<open>_y\<close>. The
  merge raises MergeError when the suffix turns a column of one side into a duplicate of
  an earlier column of that side which it was not before.
\<close>

definition suffixed :: "string \<Rightarrow> string list \<Rightarrow> string list \<Rightarrow> string list" where
  "suffixed sfx other cols = map (\<lambda>c. if c \<in> set other then c @ sfx else c) cols"

fun renamed_dups :: "string list \<Rightarrow> string list \<Rightarrow> (string \<times> string) list \<Rightarrow> bool" where
  "renamed_dups seen_old seen_new [] = False"
| "renamed_dups seen_old seen_new ((old, new) # cs) =
     ((new \<in> set seen_new \<and> old \<notin> set seen_old)
      \<or> renamed_dups (old # seen_old) (new # seen_new) cs)"

definition suffix_clash :: "string \<Rightarrow> string list \<Rightarrow> string list \<Rightarrow> bool" where
  "suffix_clash sfx other cols = renamed_dups [] [] (zip cols (suffixed sfx other cols))"

section \<open>Code table loader\<close>

record code_row =
  c_state :: obj
  c_code :: obj

text \<open>\<^verbatim>\<open>load_codes\<close>, on the frame read from the file restricted to its two columns.\<close>

definition load_codes :: "code_row list \<Rightarrow> error + code_row list" where
  "load_codes raw =
     (if \<not> object_dtype (map c_code raw) then Inl AttributeError
      else Inr (map (\<lambda>r. r\<lparr>c_code := str_map upper (c_code r)\<rparr>) raw))"

section \<open>Population builder\<close>

text \<open>
  A wide frame: the column \<^verbatim>\<open>state\<close> and the value columns, named in \<open>w_cols\<close>; a row
  is its state and one value for each name of \<open>w_cols\<close>, in that order. The frames given
  to \<open>build_pop\<close> are the results of \<^verbatim>\<open>load_clean_pop\<close> for the files of the list:
  no cell is missing in them (\<^verbatim>\<open>dropna\<close>) and the state is a string.
\<close>

record wide =
  w_cols :: "string list"
  w_rows :: "(string \<times> real list) list"

text \<open>Line 98: \<^verbatim>\<open>pop_df.merge(df, how="inner", on="state")\<close>.\<close>

definition merge_state :: "wide \<Rightarrow> wide \<Rightarrow> error + wide" where
  "merge_state l r =
     (if suffix_clash ''_x'' (w_cols r) (w_cols l) \<or> suffix_clash ''_y'' (w_cols l) (w_cols r)
      then Inl MergeError
      else Inr \<lparr> w_cols = suffixed ''_x'' (w_cols r) (w_cols l) @ suffixed ''_y'' (w_cols l) (w_cols r),
                 w_rows = map (\<lambda>((s, vs), (s', ws)). (s, vs @ ws))
                            (merge_inner (\<lambda>a b. fst a = fst b) (w_rows l) (w_rows r)) \<rparr>)"

text \<open>The loop of lines 96 to 98 over the remaining files.\<close>

fun merge_files :: "wide \<Rightarrow> wide list \<Rightarrow> error + wide" where
  "merge_files pop_df [] = Inr pop_df"
| "merge_files pop_df (df # dfs) =
     (case merge_state pop_df df of Inl e \<Rightarrow> Inl e | Inr m \<Rightarrow> merge_files m dfs)"

text \<open>
  \<^verbatim>\<open>melt\<close>: one block of rows for each value column, in the order of the columns, each
  block in the order of the rows.
\<close>

definition melt :: "string list \<Rightarrow> ('k \<times> 'v list) list \<Rightarrow> ('k \<times> string \<times> 'v) list" where
  "melt cols rows =
     concat (map (\<lambda>j. map (\<lambda>(k, vs). (k, cols ! j, vs ! j)) rows) [0..<length cols])"

text \<open>Lines 103 to 105: the value columns with a name longer than 4 are dropped.\<close>

definition short_cols :: "string list \<Rightarrow> string list" where
  "short_cols cols = filter (\<lambda>c. length c \<le> 4) cols"

definition short_vals :: "string list \<Rightarrow> 'v list \<Rightarrow> 'v list" where
  "short_vals cols vs = map snd (filter (\<lambda>(c, v). length c \<le> 4) (zip cols vs))"

record pop_row =
  p_state :: string
  p_code :: obj
  p_year :: string
  p_pop :: real

text \<open>
  \<^verbatim>\<open>build_pop\<close>, with the frame of the code file and the cleaned frames of the
  population files. A value column named \<^verbatim>\<open>code\<close> would be renamed by the merge with
  the code table and dropped for its length, and \<^verbatim>\<open>melt\<close> would raise KeyError.
\<close>

definition build_pop :: "code_row list \<Rightarrow> wide list \<Rightarrow> error + pop_row list" where
  "build_pop codes files =
     (case load_codes codes of
        Inl e \<Rightarrow> Inl e
      | Inr letters \<Rightarrow>
         (case files of
            [] \<Rightarrow> Inl IndexError
          | f # fs \<Rightarrow>
             (case merge_files f fs of
                Inl e \<Rightarrow> Inl e
              | Inr pop_df \<Rightarrow>
                 let stripped = map (\<lambda>(s, vs). (strip_chars PUNCTUATION s, vs)) (w_rows pop_df);
                     cols = w_cols pop_df;
                     joined = merge_inner (\<lambda>l r. c_state l = Str (fst r)) letters stripped
                 in if suffix_clash ''_y'' [''code''] cols then Inl MergeError
                    else if ''code'' \<in> set cols then Inl KeyError
                    else Inr (map (\<lambda>((s, c), y, v). \<lparr> p_state = s, p_code = c, p_year = y, p_pop = v \<rparr>)
                           (melt (short_cols cols)
                              (map (\<lambda>(l, (s, vs)). ((s, c_code l), short_vals cols vs)) joined))))))"

section \<open>Legislature cleaner\<close>

text \<open>
  The legislature file is wide as well, with text cells: a row is its state and one cell
  for each column of \<open>l_cols\<close>.
\<close>

record leg_wide =
  l_cols :: "string list"
  l_rows :: "(obj \<times> obj list) list"

record pol_row =
  l_state :: obj
  l_code :: obj
  l_year :: string
  l_pol :: obj

definition fill_split :: "obj \<Rightarrow> obj" where
  "fill_split x = (if x = NA then Str ''Split'' else x)"

text \<open>Lines 132 and 133 on one cell.\<close>

definition clean_pol_cell :: "obj \<Rightarrow> obj" where
  "clean_pol_cell x = str_map (replace_str ''Divided'' ''Split'') (str_map (strip_chars PUNCTUATION) x)"

definition load_clean_pol :: "code_row list \<Rightarrow> leg_wide \<Rightarrow> error + pol_row list" where
  "load_clean_pol codes df =
     (case load_codes codes of
        Inl e \<Rightarrow> Inl e
      | Inr letters \<Rightarrow>
         let cols = l_cols df;
             cleaned = map (\<lambda>(s, vs). (s, map clean_pol_cell vs)) (l_rows df);
             joined = merge_inner (\<lambda>l r. c_state l = fst r) letters cleaned
         in if list_ex (\<lambda>j. \<not> object_dtype (map (\<lambda>(s, vs). vs ! j) (l_rows df))) [0..<length cols]
            then Inl AttributeError
            else if suffix_clash ''_y'' [''code''] cols then Inl MergeError
            else if ''code'' \<in> set cols then Inl KeyError
            else Inr (map (\<lambda>((s, c), y, v). \<lparr> l_state = s, l_code = c, l_year = y, l_pol = v \<rparr>)
                   (melt cols
                      (map (\<lambda>(l, (s, vs)). ((fill_split s, fill_split (c_code l)), map fill_split vs))
                         joined))))"

section \<open>Energy builder\<close>

record eng_row =
  en_year :: int
  en_code :: obj
  en_src :: obj
  en_gen_mwh :: real
  en_renew :: string
  en_co2_tons :: real
  en_so2_tons :: real
  en_nox_tons :: real

text \<open>\<^verbatim>\<open>fillna(0)\<close> on a text cell, a year and a number.\<close>

definition fill0_obj :: "obj \<Rightarrow> obj" where
  "fill0_obj x = (if x = NA then Zero else x)"

definition fill0_int :: "int option \<Rightarrow> int" where
  "fill0_int x = (case x of None \<Rightarrow> 0 | Some v \<Rightarrow> v)"

definition fill0 :: "real option \<Rightarrow> real" where
  "fill0 x = (case x of None \<Rightarrow> 0 | Some v \<Rightarrow> v)"

definition ENG :: "string \<times> string" where
  "ENG = (''data/generation_annual.csv'', ''data/emission_annual.csv'')"

text \<open>
  Lines 214 and 216: the left merge of the generation table with the emission table on
  state, year and source, and \<^verbatim>\<open>fillna(0)\<close> on the result.
\<close>

definition merge_eng :: "gen_row list \<Rightarrow> emi_row list \<Rightarrow> eng_row list" where
  "merge_eng eng_df df =
     map (\<lambda>(l, r).
            \<lparr> en_year = fill0_int (gn_year l),
              en_code = fill0_obj (gn_state l),
              en_src = fill0_obj (gn_src l),
              en_gen_mwh = fill0 (gn_gen_mwh l),
              en_renew = gn_renew l,
              en_co2_tons = fill0 (case r of None \<Rightarrow> None | Some e \<Rightarrow> em_co2_tons e),
              en_so2_tons = fill0 (case r of None \<Rightarrow> None | Some e \<Rightarrow> em_so2_tons e),
              en_nox_tons = fill0 (case r of None \<Rightarrow> None | Some e \<Rightarrow> em_nox_tons e) \<rparr>)
       (merge_left
          (\<lambda>l r. gn_state l = em_state r \<and> gn_year l = em_year r \<and> gn_src l = em_src r)
          eng_df df)"

text \<open>
  \<^verbatim>\<open>build_eng\<close> for a list of two files, the first read with the columns of the
  generation file and the second with those of the emission file, as the two files of
  \<open>ENG\<close> are. Lines 217 to 221 are the four filters, line 223 renames the state to
  \<open>code\<close>. (A generation frame never comes back as an emission table, nor the converse;
  these two cases of the case distinctions are there for totality only.)
\<close>

definition build_eng :: "string \<times> string \<Rightarrow> gen_raw list \<Rightarrow> emi_raw list \<Rightarrow> error + eng_row list" where
  "build_eng files gen emi =
     (case load_clean_eng (fst files) (GenFile gen) of
        Inl e \<Rightarrow> Inl e
      | Inr (EmiClean _) \<Rightarrow> Inl KeyError
      | Inr (GenClean eng_df) \<Rightarrow>
         (case load_clean_eng (snd files) (EmiFile emi) of
            Inl e \<Rightarrow> Inl e
          | Inr (GenClean _) \<Rightarrow> Inl KeyError
          | Inr (EmiClean df) \<Rightarrow>
             Inr (filter (\<lambda>r. en_code r \<noteq> Str ''DC'')
                   (filter (\<lambda>r. en_code r \<noteq> Str ''  '')
                     (filter (\<lambda>r. en_code r \<noteq> Str ''US-TOTAL'')
                       (filter (\<lambda>r. en_code r \<noteq> Str ''US-Total'') (merge_eng eng_df df)))))))"

section \<open>Numbers of the derived columns\<close>

text \<open>
  A quotient of two columns can be infinite or undefined: pandas divides as IEEE does,
  without raising. \<open>NaN\<close> is also the missing value of a numeric column.
\<close>

datatype fl = Fin real | PInf | NInf | NaN

fun fdiv :: "fl \<Rightarrow> fl \<Rightarrow> fl" where
  "fdiv (Fin a) (Fin b) =
     (if b \<noteq> 0 then Fin (a / b) else if 0 < a then PInf else if a < 0 then NInf else NaN)"
| "fdiv (Fin a) PInf = Fin 0"
| "fdiv (Fin a) NInf = Fin 0"
| "fdiv PInf (Fin b) = (if 0 \<le> b then PInf else NInf)"
| "fdiv NInf (Fin b) = (if 0 \<le> b then NInf else PInf)"
| "fdiv _ _ = NaN"

fun fadd :: "fl \<Rightarrow> fl \<Rightarrow> fl" where
  "fadd (Fin a) (Fin b) = Fin (a + b)"
| "fadd NaN _ = NaN"
| "fadd _ NaN = NaN"
| "fadd PInf NInf = NaN"
| "fadd NInf PInf = NaN"
| "fadd PInf _ = PInf"
| "fadd _ PInf = PInf"
| "fadd NInf _ = NInf"
| "fadd _ NInf = NInf"

text \<open>The sum of a group: missing values are skipped, the empty sum is 0.\<close>

definition nansum :: "fl list \<Rightarrow> fl" where
  "nansum xs = foldl fadd (Fin 0) (filter (\<lambda>x. x \<noteq> NaN) xs)"

definition num_of :: "real option \<Rightarrow> fl" where
  "num_of x = (case x of None \<Rightarrow> NaN | Some v \<Rightarrow> Fin v)"

fun fl_less :: "fl \<Rightarrow> fl \<Rightarrow> bool" where
  "fl_less (Fin a) (Fin b) = (a < b)"
| "fl_less (Fin a) PInf = True"
| "fl_less NInf (Fin b) = True"
| "fl_less NInf PInf = True"
| "fl_less _ _ = False"

text \<open>
  \<^verbatim>\<open>sort_values(..., ascending=False)\<close> on the second component: descending, rows with
  an undefined value last, rows of equal value in their former order.
\<close>

fun insert_desc :: "'a \<times> fl \<Rightarrow> ('a \<times> fl) list \<Rightarrow> ('a \<times> fl) list" where
  "insert_desc x [] = [x]"
| "insert_desc x (y # ys) =
     (if fl_less (snd x) (snd y) then y # insert_desc x ys else x # y # ys)"

definition sort_values_desc :: "('a \<times> fl) list \<Rightarrow> ('a \<times> fl) list" where
  "sort_values_desc xs =
     foldr insert_desc (filter (\<lambda>x. snd x \<noteq> NaN) xs) [] @ filter (\<lambda>x. snd x = NaN) xs"

section \<open>Full-dataset assembler\<close>

subsection \<open>Population with legislature, and the forward fill\<close>

record 'y pp_row =
  pp_state :: string
  pp_code :: obj
  pp_year :: 'y
  pp_pop :: real
  pp_pol :: obj

text \<open>Line 243: the left merge of the population rows with the legislature rows.\<close>

definition merge_pop_pol :: "pop_row list \<Rightarrow> pol_row list \<Rightarrow> string pp_row list" where
  "merge_pop_pol pop pol =
     map (\<lambda>(p, l). \<lparr> pp_state = p_state p, pp_code = p_code p, pp_year = p_year p,
                      pp_pop = p_pop p,
                      pp_pol = (case l of None \<Rightarrow> NA | Some x \<Rightarrow> l_pol x) \<rparr>)
       (merge_left (\<lambda>p l. Str (p_state p) = l_state l \<and> p_code p = l_code l \<and> p_year p = l_year l)
          pop pol)"

text \<open>
  Line 244: \<^verbatim>\<open>astype(int)\<close> on the year labels, with Python's \<^verbatim>\<open>int\<close> on a string:
  white space around, an optional sign, decimal digits with single underscores between
  them. Anything else raises ValueError.
\<close>

definition is_space :: "char \<Rightarrow> bool" where
  "is_space c =
     (let n = (of_char c :: nat) in (9 \<le> n \<and> n \<le> 13) \<or> (28 \<le> n \<and> n \<le> 32))"

definition is_digit :: "char \<Rightarrow> bool" where
  "is_digit c = (let n = (of_char c :: nat) in 48 \<le> n \<and> n \<le> 57)"

fun parse_digits :: "nat \<Rightarrow> bool \<Rightarrow> string \<Rightarrow> nat option" where
  "parse_digits acc after_digit [] = (if after_digit then Some acc else None)"
| "parse_digits acc after_digit (c # cs) =
     (if is_digit c then parse_digits (10 * acc + (of_char c - 48)) True cs
      else if c = CHR ''_'' \<and> after_digit then parse_digits acc False cs
      else None)"

definition py_int :: "string \<Rightarrow> int option" where
  "py_int s =
     (case rev (dropWhile is_space (rev (dropWhile is_space s))) of
        [] \<Rightarrow> None
      | c # cs \<Rightarrow>
          if c = CHR ''+'' then map_option int (parse_digits 0 False cs)
          else if c = CHR ''-'' then map_option (\<lambda>n. - int n) (parse_digits 0 False cs)
          else map_option int (parse_digits 0 False (c # cs)))"

fun cast_year :: "string pp_row list \<Rightarrow> error + int pp_row list" where
  "cast_year [] = Inr []"
| "cast_year (r # rs) =
     (case py_int (pp_year r) of
        None \<Rightarrow> Inl ValueError
      | Some y \<Rightarrow>
          (case cast_year rs of
             Inl e \<Rightarrow> Inl e
           | Inr rs' \<Rightarrow>
               Inr (\<lparr> pp_state = pp_state r, pp_code = pp_code r, pp_year = y,
                      pp_pop = pp_pop r, pp_pol = pp_pol r \<rparr> # rs')))"

text \<open>\<^verbatim>\<open>Series.unique()\<close>: the distinct values in the order of their first occurrence.\<close>

definition unique :: "'a list \<Rightarrow> 'a list" where
  "unique xs = rev (remdups (rev xs))"

text \<open>
  \<^verbatim>\<open>Series.fillna(method="ffill")\<close>: a missing value takes the last value that is not
  missing before it, and stays missing when there is none.
\<close>

fun ffill_from :: "obj \<Rightarrow> obj list \<Rightarrow> obj list" where
  "ffill_from prev [] = []"
| "ffill_from prev (x # xs) =
     (if x = NA then prev # ffill_from prev xs else x # ffill_from x xs)"

definition ffill :: "obj list \<Rightarrow> obj list" where
  "ffill xs = ffill_from NA xs"

text \<open>
  \<^verbatim>\<open>data.loc[sel, "pol"] = values\<close>: the rows selected take the values, in order (the
  values carry the index labels of the selected rows).
\<close>

fun assign_pol :: "('y pp_row \<Rightarrow> bool) \<Rightarrow> 'y pp_row list \<Rightarrow> obj list \<Rightarrow> 'y pp_row list" where
  "assign_pol sel [] vs = []"
| "assign_pol sel (r # rs) vs =
     (if sel r
      then (case vs of
              [] \<Rightarrow> r # assign_pol sel rs []
            | v # vs' \<Rightarrow> r\<lparr>pp_pol := v\<rparr> # assign_pol sel rs vs')
      else r # assign_pol sel rs vs)"

text \<open>
  The body of the loop of lines 246 to 248 for one value of \<^verbatim>\<open>state\<close>. The comparison
  of line 247 is false on every row when the value is the missing code.
\<close>

definition fill_state :: "obj \<Rightarrow> 'y pp_row list \<Rightarrow> 'y pp_row list" where
  "fill_state st data =
     (let state_filter = (\<lambda>r. st \<noteq> NA \<and> pp_code r = st)
      in assign_pol state_filter data (ffill (map pp_pol (filter state_filter data))))"

definition ffill_per_state :: "'y pp_row list \<Rightarrow> 'y pp_row list" where
  "ffill_per_state data = foldl (\<lambda>d st. fill_state st d) data (unique (map pp_code data))"

subsection \<open>The merge with the energy table and the derived columns\<close>

record joined_row =
  state :: obj
  code :: obj
  year :: int
  pop :: "real option"
  pol :: obj
  src :: obj
  gen_mwh :: real
  renew :: string
  co2_tons :: real
  so2_tons :: real
  nox_tons :: real

record pp_ext = joined_row +
  co2_pp :: fl
  mwh_pp :: fl

record sums_ext = pp_ext +
  sum_gen_mwh :: fl
  sum_mwh_pp :: fl
  mwh_pp_pct :: fl
  gen_mwh_pct :: fl

record full_row = sums_ext +
  rank :: "nat option"

definition join_eng :: "int pp_row option \<times> eng_row \<Rightarrow> joined_row" where
  "join_eng lr =
     (case lr of (l, e) \<Rightarrow>
        \<lparr> state = (case l of None \<Rightarrow> NA | Some p \<Rightarrow> Str (pp_state p)),
          code = en_code e,
          year = en_year e,
          pop = map_option pp_pop l,
          pol = (case l of None \<Rightarrow> NA | Some p \<Rightarrow> pp_pol p),
          src = en_src e,
          gen_mwh = en_gen_mwh e,
          renew = en_renew e,
          co2_tons = en_co2_tons e,
          so2_tons = en_so2_tons e,
          nox_tons = en_nox_tons e \<rparr>)"

text \<open>Line 250: the right merge on year and code.\<close>

definition merge_energy :: "int pp_row list \<Rightarrow> eng_row list \<Rightarrow> joined_row list" where
  "merge_energy data eng_df =
     map join_eng (merge_right (\<lambda>l e. pp_year l = en_year e \<and> pp_code l = en_code e) data eng_df)"

text \<open>Lines 253 and 254.\<close>

definition add_per_capita :: "joined_row list \<Rightarrow> pp_ext list" where
  "add_per_capita data =
     map (\<lambda>r. joined_row.extend r
                (pp_ext.fields (fdiv (Fin (co2_tons r)) (num_of (pop r)))
                               (fdiv (Fin (gen_mwh r)) (num_of (pop r))))) data"

text \<open>
  \<^verbatim>\<open>groupby\<close>: the groups are the distinct keys, sorted; a row with a missing key is in
  no group. Among the keys of a text column the number 0 comes before the strings.
\<close>

definition obj_ord :: "obj \<Rightarrow> nat \<times> string" where
  "obj_ord x = (case x of Zero \<Rightarrow> (0, []) | Str s \<Rightarrow> (1, s) | NA \<Rightarrow> (2, []))"

definition group_keys :: "('k \<Rightarrow> 'o::linorder) \<Rightarrow> ('k \<Rightarrow> bool) \<Rightarrow> 'k list \<Rightarrow> 'k list" where
  "group_keys ord_of missing ks = sort_key ord_of (remdups (filter (\<lambda>k. \<not> missing k) ks))"

text \<open>
  Lines 257 to 259: the sums of a state and year. The sums are the exact sums of the
  values. The program adds IEEE doubles, so the sums it computes can differ from these
  by rounding and can overflow to infinity; how far they differ is outside this model.
  No property of the program proved below rests on the numeric value of these sums.
\<close>

definition sum_mwh :: "pp_ext list \<Rightarrow> ((int \<times> obj) \<times> real \<times> fl) list" where
  "sum_mwh data =
     map (\<lambda>k. (k, sum_list (map gen_mwh (filter (\<lambda>r. (year r, code r) = k) data)),
                  nansum (map mwh_pp (filter (\<lambda>r. (year r, code r) = k) data))))
       (group_keys (\<lambda>k. (fst k, obj_ord (snd k))) (\<lambda>k. snd k = NA)
          (map (\<lambda>r. (year r, code r)) data))"

text \<open>
  Lines 261 to 263. The two shares are exact quotients by the exact sums, where the
  program divides doubles by the sums it computed; no property of the program proved
  below rests on the numeric value of a share.
\<close>

definition add_shares :: "pp_ext list \<Rightarrow> sums_ext list" where
  "add_shares data =
     map (\<lambda>(r, m).
            let sg = (case m of None \<Rightarrow> NaN | Some s \<Rightarrow> Fin (fst (snd s)));
                sp = (case m of None \<Rightarrow> NaN | Some s \<Rightarrow> snd (snd s))
            in pp_ext.extend r
                 (sums_ext.fields sg sp (fdiv (mwh_pp r) sp) (fdiv (Fin (gen_mwh r)) sg)))
       (merge_left (\<lambda>r s. (year r, code r) = fst s) data (sum_mwh data))"

text \<open>
  Lines 267 to 272: the sources with their ratio, sorted, and their ranks. The ratios
  are exact; the program ranks by the ratios it computes in doubles.
\<close>

definition mwh_co2 :: "sums_ext list \<Rightarrow> (obj \<times> fl) list" where
  "mwh_co2 data =
     sort_values_desc
       (map (\<lambda>k. (k, fdiv (Fin (sum_list (map co2_tons (filter (\<lambda>r. src r = k) data))))
                          (Fin (sum_list (map gen_mwh (filter (\<lambda>r. src r = k) data))))))
          (group_keys obj_ord (\<lambda>k. k = NA) (map src data)))"

definition rank_table :: "sums_ext list \<Rightarrow> (obj \<times> nat) list" where
  "rank_table data = zip (map fst (mwh_co2 data)) [1..<Suc (length (mwh_co2 data))]"

text \<open>Line 274.\<close>

definition add_rank :: "sums_ext list \<Rightarrow> full_row list" where
  "add_rank data =
     map (\<lambda>(r, m). sums_ext.extend r (full_row.fields (map_option snd m)))
       (merge_left (\<lambda>r m. src r = fst m) data (rank_table data))"

text \<open>
  \<^verbatim>\<open>build_full\<close>, with the frames of the five kinds of files it reads: the code table,
  the cleaned population files, the legislature file, the generation file and the
  emission file.
\<close>

definition build_full ::
  "code_row list \<Rightarrow> wide list \<Rightarrow> leg_wide \<Rightarrow> gen_raw list \<Rightarrow> emi_raw list \<Rightarrow> error + full_row list" where
  "build_full codes pops leg gen emi =
     (case build_eng ENG gen emi of
        Inl e \<Rightarrow> Inl e
      | Inr eng_df \<Rightarrow>
         (case build_pop codes pops of
            Inl e \<Rightarrow> Inl e
          | Inr pop_df \<Rightarrow>
             (case load_clean_pol codes leg of
                Inl e \<Rightarrow> Inl e
              | Inr pol_df \<Rightarrow>
                 (case cast_year (merge_pop_pol pop_df pol_df) of
                    Inl e \<Rightarrow> Inl e
                  | Inr data \<Rightarrow>
                      Inr (add_rank (add_shares (add_per_capita
                             (merge_energy (ffill_per_state data) eng_df))))))))"

section \<open>Functions of the specification and of the proofs\<close>

text \<open>
  The most recent value of \<open>pol\<close> that is not missing among the rows \<open>seen\<close> of the
  state \<open>st\<close>, missing when there is none: the forward fill as the specification
  describes it.
\<close>

definition most_recent :: "obj \<Rightarrow> 'y pp_row list \<Rightarrow> obj" where
  "most_recent st seen =
     (case filter (\<lambda>r. pp_code r = st \<and> pp_pol r \<noteq> NA) seen of
        [] \<Rightarrow> NA
      | xs \<Rightarrow> pp_pol (last xs))"

text \<open>The same with a value \<open>d\<close> to start from.\<close>

definition seen_or :: "obj \<Rightarrow> obj \<Rightarrow> 'y pp_row list \<Rightarrow> obj" where
  "seen_or d st seen =
     (case filter (\<lambda>r. pp_code r = st \<and> pp_pol r \<noteq> NA) seen of
        [] \<Rightarrow> d
      | xs \<Rightarrow> pp_pol (last xs))"

text \<open>
  The fill of one state in one pass over the rows, the fill of the states of a list in
  one pass, and the fill of all states in one pass; \<open>m\<close> holds the last value seen for
  each state.
\<close>

fun fill_pass :: "obj \<Rightarrow> obj \<Rightarrow> 'y pp_row list \<Rightarrow> 'y pp_row list" where
  "fill_pass st prev [] = []"
| "fill_pass st prev (r # rs) =
     (if st \<noteq> NA \<and> pp_code r = st
      then (if pp_pol r = NA then r\<lparr>pp_pol := prev\<rparr> # fill_pass st prev rs
            else r # fill_pass st (pp_pol r) rs)
      else r # fill_pass st prev rs)"

fun fill_all :: "obj list \<Rightarrow> (obj \<Rightarrow> obj) \<Rightarrow> 'y pp_row list \<Rightarrow> 'y pp_row list" where
  "fill_all S m [] = []"
| "fill_all S m (r # rs) =
     (if pp_code r \<in> set S
      then (if pp_pol r = NA then r\<lparr>pp_pol := m (pp_code r)\<rparr> # fill_all S m rs
            else r # fill_all S (m(pp_code r := pp_pol r)) rs)
      else r # fill_all S m rs)"

fun fill_rows :: "(obj \<Rightarrow> obj) \<Rightarrow> 'y pp_row list \<Rightarrow> 'y pp_row list" where
  "fill_rows m [] = []"
| "fill_rows m (r # rs) =
     (if pp_code r \<noteq> NA
      then (if pp_pol r = NA then r\<lparr>pp_pol := m (pp_code r)\<rparr> # fill_rows m rs
            else r # fill_rows (m(pp_code r := pp_pol r)) rs)
      else r # fill_rows m rs)"

text \<open>The rows of the scenario of the forward fill.\<close>

definition AL_rows :: "int pp_row list" where
  "AL_rows =
     [\<lparr> pp_state = ''Alabama'', pp_code = Str ''AL'', pp_year = 1992, pp_pop = 4154014,
         pp_pol = Str ''Republican'' \<rparr>,
      \<lparr> pp_state = ''Alabama'', pp_code = Str ''AL'', pp_year = 1994, pp_pop = 4260229,
         pp_pol = NA \<rparr>,
      \<lparr> pp_state = ''Alabama'', pp_code = Str ''AL'', pp_year = 1996, pp_pop = 4331103,
         pp_pol = Str ''Democrat'' \<rparr>]"

text \<open>
  A generation file and an emission file: Alabama written in lower case, a state that
  is one blank, the District of Columbia and the national total, all for coal in 2000;
  and the table \<open>build_eng\<close> makes of them.
\<close>

definition sample_gen :: "gen_raw list" where
  "sample_gen =
     [\<lparr> g_year = Some 2000, g_state = Str ''al'',
         g_type_of_producer = Str ''Total Electric Power Industry'',
         g_energy_source = Str ''Coal'', g_generation = Some 100 \<rparr>,
      \<lparr> g_year = Some 2000, g_state = Str '' '',
         g_type_of_producer = Str ''Total Electric Power Industry'',
         g_energy_source = Str ''Coal'', g_generation = Some 5 \<rparr>,
      \<lparr> g_year = Some 2000, g_state = Str ''DC'',
         g_type_of_producer = Str ''Total Electric Power Industry'',
         g_energy_source = Str ''Coal'', g_generation = Some 7 \<rparr>,
      \<lparr> g_year = Some 2000, g_state = Str ''US-Total'',
         g_type_of_producer = Str ''Total Electric Power Industry'',
         g_energy_source = Str ''Coal'', g_generation = Some 112 \<rparr>]"

definition sample_emi :: "emi_raw list" where
  "sample_emi =
     [\<lparr> e_year = Some 2000, e_state = Str ''AL'',
         e_producer_type = Str ''Total Electric Power Industry'',
         e_energy_source = Str ''Coal'', e_co2 = Some 50, e_so2 = Some 1, e_nox = Some 2 \<rparr>]"

definition sample_eng :: "eng_row list" where
  "sample_eng =
     [\<lparr> en_year = 2000, en_code = Str ''AL'', en_src = Str ''Coal'',
         en_gen_mwh = 100, en_renew = ''Nonrenewable'', en_co2_tons = 50,
         en_so2_tons = 1, en_nox_tons = 2 \<rparr>,
      \<lparr> en_year = 2000, en_code = Str '' '', en_src = Str ''Coal'',
         en_gen_mwh = 5, en_renew = ''Nonrenewable'', en_co2_tons = 0,
         en_so2_tons = 0, en_nox_tons = 0 \<rparr>]"

text \<open>The energy columns of a row of the merged table, as a row of the energy table.\<close>

definition eng_of :: "'a joined_row_scheme \<Rightarrow> eng_row" where
  "eng_of r =
     \<lparr> en_year = year r, en_code = code r, en_src = src r, en_gen_mwh = gen_mwh r,
       en_renew = renew r, en_co2_tons = co2_tons r, en_so2_tons = so2_tons r,
       en_nox_tons = nox_tons r \<rparr>"

text \<open>Two rows of the population and legislature table, for Alabama and Texas in 2000.\<close>

definition sample_data :: "int pp_row list" where
  "sample_data =
     [\<lparr> pp_state = ''Alabama'', pp_code = Str ''AL'', pp_year = 2000, pp_pop = 4452173,
         pp_pol = Str ''Democrat'' \<rparr>,
      \<lparr> pp_state = ''Texas'', pp_code = Str ''TX'', pp_year = 2000, pp_pop = 20944499,
         pp_pol = Str ''Split'' \<rparr>]"

text \<open>
  The ratio of a source over a table: the sum of \<open>co2_tons\<close> of all its rows divided by
  the sum of \<open>gen_mwh\<close> of all its rows.
\<close>

definition co2_per_mwh :: "'a joined_row_scheme list \<Rightarrow> obj \<Rightarrow> fl" where
  "co2_per_mwh data s =
     fdiv (Fin (sum_list (map co2_tons (filter (\<lambda>r. src r = s) data))))
          (Fin (sum_list (map gen_mwh (filter (\<lambda>r. src r = s) data))))"

text \<open>
  What lines 253 to 254, 257 to 263 and 267 to 274 do to one row: the three merges that
  attach the derived columns keep the rows as they are, one for one.
\<close>

definition capita_row :: "joined_row \<Rightarrow> pp_ext" where
  "capita_row r =
     joined_row.extend r
       (pp_ext.fields (fdiv (Fin (co2_tons r)) (num_of (pop r)))
                      (fdiv (Fin (gen_mwh r)) (num_of (pop r))))"

definition share_row :: "pp_ext list \<Rightarrow> pp_ext \<Rightarrow> sums_ext" where
  "share_row data r =
     (let grp = filter (\<lambda>x. (year x, code x) = (year r, code r)) data;
          sg = (if code r = NA then NaN else Fin (sum_list (map gen_mwh grp)));
          sp = (if code r = NA then NaN else nansum (map mwh_pp grp))
      in pp_ext.extend r
           (sums_ext.fields sg sp (fdiv (mwh_pp r) sp) (fdiv (Fin (gen_mwh r)) sg)))"

definition rank_row :: "sums_ext list \<Rightarrow> sums_ext \<Rightarrow> full_row" where
  "rank_row data r = sums_ext.extend r (full_row.fields (map_of (rank_table data) (src r)))"

text \<open>
  The frames of a small run of the whole pipeline: Alabama in the code table, in three
  population files and in the legislature file (for 1990 only); coal and natural gas for
  Alabama and coal for a state code that is not in the code table, all in 2000. They are
  followed by the tables of each stage.
\<close>

definition sample_codes :: "code_row list" where
  "sample_codes = [\<lparr> c_state = Str ''Alabama'', c_code = Str ''al'' \<rparr>]"

definition sample_pop90 :: wide where
  "sample_pop90 = \<lparr> w_cols = [''1990''], w_rows = [(''.Alabama'', [4040389])] \<rparr>"

definition sample_pop00 :: wide where
  "sample_pop00 = \<lparr> w_cols = [''2000''], w_rows = [(''.Alabama'', [4452173])] \<rparr>"

definition sample_pop10 :: wide where
  "sample_pop10 = \<lparr> w_cols = [''2010''], w_rows = [(''.Alabama'', [4785437])] \<rparr>"

definition sample_pops :: "wide list" where
  "sample_pops = [sample_pop90, sample_pop00, sample_pop10]"

definition sample_leg :: leg_wide where
  "sample_leg = \<lparr> l_cols = [''1990''], l_rows = [(Str ''Alabama'', [Str ''Democrat''])] \<rparr>"

definition sample_gen2 :: "gen_raw list" where
  "sample_gen2 =
     [\<lparr> g_year = Some 2000, g_state = Str ''al'',
         g_type_of_producer = Str ''Total Electric Power Industry'',
         g_energy_source = Str ''Coal'', g_generation = Some 100 \<rparr>,
      \<lparr> g_year = Some 2000, g_state = Str ''al'',
         g_type_of_producer = Str ''Total Electric Power Industry'',
         g_energy_source = Str ''Natural Gas'', g_generation = Some 300 \<rparr>,
      \<lparr> g_year = Some 2000, g_state = Str ''pr'',
         g_type_of_producer = Str ''Total Electric Power Industry'',
         g_energy_source = Str ''Coal'', g_generation = Some 50 \<rparr>]"

definition sample_emi2 :: "emi_raw list" where
  "sample_emi2 =
     [\<lparr> e_year = Some 2000, e_state = Str ''AL'',
         e_producer_type = Str ''Total Electric Power Industry'',
         e_energy_source = Str ''Coal'', e_co2 = Some 50, e_so2 = Some 1, e_nox = Some 2 \<rparr>,
      \<lparr> e_year = Some 2000, e_state = Str ''AL'',
         e_producer_type = Str ''Total Electric Power Industry'',
         e_energy_source = Str ''Natural Gas'', e_co2 = Some 60, e_so2 = Some 0, e_nox = Some 1 \<rparr>]"

definition sample_pop_df :: "pop_row list" where
  "sample_pop_df =
     [\<lparr>p_state = ''Alabama'', p_code = Str ''AL'', p_year = ''1990'', p_pop = 4040389\<rparr>,
      \<lparr>p_state = ''Alabama'', p_code = Str ''AL'', p_year = ''2000'', p_pop = 4452173\<rparr>,
      \<lparr>p_state = ''Alabama'', p_code = Str ''AL'', p_year = ''2010'', p_pop = 4785437\<rparr>]"

definition sample_pol_df :: "pol_row list" where
  "sample_pol_df =
     [\<lparr>l_state = Str ''Alabama'', l_code = Str ''AL'', l_year = ''1990'', l_pol = Str ''Democrat''\<rparr>]"

definition sample_eng2 :: "eng_row list" where
  "sample_eng2 =
     [\<lparr>en_year = 2000, en_code = Str ''AL'', en_src = Str ''Coal'',
         en_gen_mwh = 100, en_renew = ''Nonrenewable'', en_co2_tons = 50,
         en_so2_tons = 1, en_nox_tons = 2\<rparr>,
      \<lparr>en_year = 2000, en_code = Str ''AL'', en_src = Str ''Natural Gas'',
         en_gen_mwh = 300, en_renew = ''Nonrenewable'', en_co2_tons = 60,
         en_so2_tons = 0, en_nox_tons = 1\<rparr>,
      \<lparr>en_year = 2000, en_code = Str ''PR'', en_src = Str ''Coal'',
         en_gen_mwh = 50, en_renew = ''Nonrenewable'', en_co2_tons = 0,
         en_so2_tons = 0, en_nox_tons = 0\<rparr>]"

definition sample_filled :: "int pp_row list" where
  "sample_filled =
     [\<lparr>pp_state = ''Alabama'', pp_code = Str ''AL'', pp_year = 1990, pp_pop = 4040389, pp_pol = Str ''Democrat''\<rparr>,
      \<lparr>pp_state = ''Alabama'', pp_code = Str ''AL'', pp_year = 2000, pp_pop = 4452173, pp_pol = Str ''Democrat''\<rparr>,
      \<lparr>pp_state = ''Alabama'', pp_code = Str ''AL'', pp_year = 2010, pp_pop = 4785437, pp_pol = Str ''Democrat''\<rparr>]"

definition sample_full :: "full_row list" where
  "sample_full =
    [\<lparr>state = Str ''Alabama'', code = Str ''AL'', year = 2000,
         pop = Some 4452173, pol = Str ''Democrat'', src = Str ''Coal'',
         gen_mwh = 100, renew = ''Nonrenewable'', co2_tons = 50,
         so2_tons = 1, nox_tons = 2, co2_pp = Fin (50 / 4452173),
         mwh_pp = Fin (100 / 4452173), sum_gen_mwh = Fin 400,
         sum_mwh_pp = Fin (400 / 4452173), mwh_pp_pct = Fin (1 / 4),
         gen_mwh_pct = Fin (1 / 4), rank = Some 1\<rparr>,
      \<lparr>state = Str ''Alabama'', code = Str ''AL'', year = 2000,
         pop = Some 4452173, pol = Str ''Democrat'',
         src = Str ''Natural Gas'', gen_mwh = 300, renew = ''Nonrenewable'',
         co2_tons = 60, so2_tons = 0, nox_tons = 1,
         co2_pp = Fin (60 / 4452173), mwh_pp = Fin (300 / 4452173),
         sum_gen_mwh = Fin 400, sum_mwh_pp = Fin (400 / 4452173),
         mwh_pp_pct = Fin (3 / 4), gen_mwh_pct = Fin (3 / 4),
         rank = Some 2\<rparr>,
      \<lparr>state = NA, code = Str ''PR'', year = 2000, pop = None, pol = NA,
         src = Str ''Coal'', gen_mwh = 50, renew = ''Nonrenewable'',
         co2_tons = 0, so2_tons = 0, nox_tons = 0, co2_pp = NaN,
         mwh_pp = NaN, sum_gen_mwh = Fin 50, sum_mwh_pp = Fin 0,
         mwh_pp_pct = NaN, gen_mwh_pct = Fin 1, rank = Some 1\<rparr>]"

definition sample_joined :: "joined_row list" where
  "sample_joined = 
    [\<lparr>state = Str ''Alabama'', code = Str ''AL'', year = 2000,
         pop = Some 4452173, pol = Str ''Democrat'', src = Str ''Coal'',
         gen_mwh = 100, renew = ''Nonrenewable'', co2_tons = 50,
         so2_tons = 1, nox_tons = 2\<rparr>,
      \<lparr>state = Str ''Alabama'', code = Str ''AL'', year = 2000,
         pop = Some 4452173, pol = Str ''Democrat'',
         src = Str ''Natural Gas'', gen_mwh = 300, renew = ''Nonrenewable'',
         co2_tons = 60, so2_tons = 0, nox_tons = 1\<rparr>,
      \<lparr>state = NA, code = Str ''PR'', year = 2000, pop = None, pol = NA,
         src = Str ''Coal'', gen_mwh = 50, renew = ''Nonrenewable'',
         co2_tons = 0, so2_tons = 0, nox_tons = 0\<rparr>]"

definition sample_capita :: "pp_ext list" where
  "sample_capita =
    [\<lparr>state = Str ''Alabama'', code = Str ''AL'', year = 2000,
         pop = Some 4452173, pol = Str ''Democrat'', src = Str ''Coal'',
         gen_mwh = 100, renew = ''Nonrenewable'', co2_tons = 50,
         so2_tons = 1, nox_tons = 2, co2_pp = Fin (50 / 4452173),
         mwh_pp = Fin (100 / 4452173)\<rparr>,
      \<lparr>state = Str ''Alabama'', code = Str ''AL'', year = 2000,
         pop = Some 4452173, pol = Str ''Democrat'',
         src = Str ''Natural Gas'', gen_mwh = 300, renew = ''Nonrenewable'',
         co2_tons = 60, so2_tons = 0, nox_tons = 1,
         co2_pp = Fin (60 / 4452173), mwh_pp = Fin (300 / 4452173)\<rparr>,
      \<lparr>state = NA, code = Str ''PR'', year = 2000, pop = None, pol = NA,
         src = Str ''Coal'', gen_mwh = 50, renew = ''Nonrenewable'',
         co2_tons = 0, so2_tons = 0, nox_tons = 0, co2_pp = NaN,
         mwh_pp = NaN\<rparr>]"

definition sample_sums :: "sums_ext list" where
  "sample_sums =
    [\<lparr>state = Str ''Alabama'', code = Str ''AL'', year = 2000,
         pop = Some 4452173, pol = Str ''Democrat'', src = Str ''Coal'',
         gen_mwh = 100, renew = ''Nonrenewable'', co2_tons = 50,
         so2_tons = 1, nox_tons = 2, co2_pp = Fin (50 / 4452173),
         mwh_pp = Fin (100 / 4452173), sum_gen_mwh = Fin 400,
         sum_mwh_pp = Fin (400 / 4452173), mwh_pp_pct = Fin (1 / 4),
         gen_mwh_pct = Fin (1 / 4)\<rparr>,
      \<lparr>state = Str ''Alabama'', code = Str ''AL'', year = 2000,
         pop = Some 4452173, pol = Str ''Democrat'',
         src = Str ''Natural Gas'', gen_mwh = 300, renew = ''Nonrenewable'',
         co2_tons = 60, so2_tons = 0, nox_tons = 1,
         co2_pp = Fin (60 / 4452173), mwh_pp = Fin (300 / 4452173),
         sum_gen_mwh = Fin 400, sum_mwh_pp = Fin (400 / 4452173),
         mwh_pp_pct = Fin (3 / 4), gen_mwh_pct = Fin (3 / 4)\<rparr>,
      \<lparr>state = NA, code = Str ''PR'', year = 2000, pop = None, pol = NA,
         src = Str ''Coal'', gen_mwh = 50, renew = ''Nonrenewable'',
         co2_tons = 0, so2_tons = 0, nox_tons = 0, co2_pp = NaN,
         mwh_pp = NaN, sum_gen_mwh = Fin 50, sum_mwh_pp = Fin 0,
         mwh_pp_pct = NaN, gen_mwh_pct = Fin 1\<rparr>]"

text \<open>
  The scenario of the population builder: three cleaned population files for the years
  1990 and 1995, 2000 and 2005, 2010 and 2015, with California the only state in all
  three, the code table, and the table \<open>build_pop\<close> returns. Then three files in which
  the third has the years of the first two.
\<close>

definition scen_codes :: "code_row list" where
  "scen_codes =
     [\<lparr> c_state = Str ''CA'', c_code = Str ''CA'' \<rparr>,
      \<lparr> c_state = Str ''NY'', c_code = Str ''NY'' \<rparr>,
      \<lparr> c_state = Str ''TX'', c_code = Str ''TX'' \<rparr>]"

definition scen90 :: wide where
  "scen90 = \<lparr> w_cols = [''1990'', ''1995''],
              w_rows = [(''.CA'', [29760021, 31493525]), (''.TX'', [16986510, 18958751])] \<rparr>"

definition scen00 :: wide where
  "scen00 = \<lparr> w_cols = [''2000'', ''2005''],
              w_rows = [(''.CA'', [33871648, 35827943]), (''.NY'', [18976457, 19132610])] \<rparr>"

definition scen10 :: wide where
  "scen10 = \<lparr> w_cols = [''2010'', ''2015''],
              w_rows = [(''.NY'', [19378102, 19654666]), (''.CA'', [37253956, 38918045])] \<rparr>"

definition scen_out :: "pop_row list" where
  "scen_out =
     [\<lparr> p_state = ''CA'', p_code = Str ''CA'', p_year = ''1990'', p_pop = 29760021 \<rparr>,
      \<lparr> p_state = ''CA'', p_code = Str ''CA'', p_year = ''1995'', p_pop = 31493525 \<rparr>,
      \<lparr> p_state = ''CA'', p_code = Str ''CA'', p_year = ''2000'', p_pop = 33871648 \<rparr>,
      \<lparr> p_state = ''CA'', p_code = Str ''CA'', p_year = ''2005'', p_pop = 35827943 \<rparr>,
      \<lparr> p_state = ''CA'', p_code = Str ''CA'', p_year = ''2010'', p_pop = 37253956 \<rparr>,
      \<lparr> p_state = ''CA'', p_code = Str ''CA'', p_year = ''2015'', p_pop = 38918045 \<rparr>]"

definition over90 :: wide where
  "over90 = \<lparr> w_cols = [''1990''], w_rows = [(''.CA'', [29760021])] \<rparr>"

definition over00 :: wide where
  "over00 = \<lparr> w_cols = [''2000''], w_rows = [(''.CA'', [33871648])] \<rparr>"

definition over10 :: wide where
  "over10 = \<lparr> w_cols = [''1990'', ''2000''], w_rows = [(''.CA'', [29760021, 33871648])] \<rparr>"

section \<open>The forward fill\<close>

lemma if_fun_upd: "(\<lambda>a. if a = x then v else m a) = m(x := v)"
  by auto

lemma assign_ffill_pass:
  "assign_pol (\<lambda>r. st \<noteq> NA \<and> pp_code r = st) data
     (ffill_from prev (map pp_pol (filter (\<lambda>r. st \<noteq> NA \<and> pp_code r = st) data)))
   = fill_pass st prev data"
  by (induction data arbitrary: prev) auto

lemma fill_state_pass: "fill_state st data = fill_pass st NA data"
  by (simp add: fill_state_def ffill_def assign_ffill_pass)

lemma fill_pass_NA: "fill_pass NA p rs = rs"
  by (induction rs) auto

lemma fill_pass_all:
  "st \<notin> set S \<Longrightarrow> st \<noteq> NA \<Longrightarrow>
   fill_pass st p (fill_all S m rs) = fill_all (st # S) (m(st := p)) rs"
proof (induction rs arbitrary: m p)
  case Nil
  then show ?case by simp
next
  case (Cons r rs)
  have IH: "fill_pass st p' (fill_all S m' rs) = fill_all (st # S) (m'(st := p')) rs" for p' m'
    using Cons.IH [OF Cons.prems] .
  show ?case
  proof (cases "pp_code r = st")
    case True
    then show ?thesis using Cons.prems by (simp add: IH if_fun_upd)
  next
    case False
    then have tw: "(m(st := p))(pp_code r := v) = (m(pp_code r := v))(st := p)" for v
      by (simp add: fun_upd_twist)
    from False show ?thesis using Cons.prems by (simp add: IH tw if_fun_upd)
  qed
qed

lemma foldl_fill_all:
  "distinct cs \<Longrightarrow> set cs \<inter> set S = {} \<Longrightarrow> NA \<notin> set cs \<Longrightarrow>
   foldl (\<lambda>d st. fill_pass st NA d) (fill_all S (\<lambda>_. NA) data) cs
     = fill_all (rev cs @ S) (\<lambda>_. NA) data"
proof (induction cs arbitrary: S)
  case Nil
  then show ?case by simp
next
  case (Cons c cs)
  have "fill_pass c NA (fill_all S (\<lambda>_. NA) data) = fill_all (c # S) ((\<lambda>_. NA)(c := NA)) data"
    using Cons.prems by (intro fill_pass_all) auto
  also have "(\<lambda>_. NA)(c := NA) = (\<lambda>_::obj. NA)" by auto
  finally have step: "fill_pass c NA (fill_all S (\<lambda>_. NA) data) = fill_all (c # S) (\<lambda>_. NA) data" .
  have "foldl (\<lambda>d st. fill_pass st NA d) (fill_all (c # S) (\<lambda>_. NA) data) cs
          = fill_all (rev cs @ c # S) (\<lambda>_. NA) data"
    using Cons.prems by (intro Cons.IH) auto
  with step show ?case by simp
qed

lemma foldl_skip_NA:
  "foldl (\<lambda>d st. fill_pass st NA d) data cs
     = foldl (\<lambda>d st. fill_pass st NA d) data (filter (\<lambda>c. c \<noteq> NA) cs)"
  by (induction cs arbitrary: data) (auto simp: fill_pass_NA)

lemma fill_all_empty: "fill_all [] m rs = rs"
  by (induction rs) auto

lemma fill_all_rows:
  "NA \<notin> set S \<Longrightarrow> \<forall>r \<in> set rs. pp_code r \<noteq> NA \<longrightarrow> pp_code r \<in> set S \<Longrightarrow>
   fill_all S m rs = fill_rows m rs"
  by (induction rs arbitrary: m) auto

text \<open>The loop over the states is one pass over the rows.\<close>

lemma ffill_per_state_rows: "ffill_per_state data = fill_rows (\<lambda>_. NA) data"
proof -
  let ?cs = "filter (\<lambda>c. c \<noteq> NA) (unique (map pp_code data))"
  have d: "distinct ?cs" by (simp add: unique_def)
  have "ffill_per_state data = foldl (\<lambda>d st. fill_pass st NA d) data ?cs"
    unfolding ffill_per_state_def fill_state_pass by (rule foldl_skip_NA)
  also have "\<dots> = foldl (\<lambda>d st. fill_pass st NA d) (fill_all [] (\<lambda>_. NA) data) ?cs"
    by (simp add: fill_all_empty)
  also have "\<dots> = fill_all (rev ?cs @ []) (\<lambda>_. NA) data"
    using d by (intro foldl_fill_all) auto
  also have "\<dots> = fill_rows (\<lambda>_. NA) data"
    by (intro fill_all_rows) (auto simp: unique_def)
  finally show ?thesis .
qed

lemma fill_rows_length: "length (fill_rows m rs) = length rs"
  by (induction rs arbitrary: m) auto

lemma fill_rows_idem:
  "\<forall>c. m' c = NA \<or> m' c = m c \<Longrightarrow> fill_rows m' (fill_rows m rs) = fill_rows m rs"
proof (induction rs arbitrary: m m')
  case Nil
  then show ?case by simp
next
  case (Cons r rs)
  show ?case
  proof (cases "pp_code r = NA")
    case True
    with Cons show ?thesis by simp
  next
    case c: False
    show ?thesis
    proof (cases "pp_pol r = NA")
      case False
      have "fill_rows (m'(pp_code r := pp_pol r)) (fill_rows (m(pp_code r := pp_pol r)) rs)
              = fill_rows (m(pp_code r := pp_pol r)) rs"
        using Cons.prems by (intro Cons.IH) auto
      with c False show ?thesis by simp
    next
      case True
      show ?thesis
      proof (cases "m (pp_code r) = NA")
        case mT: True
        then have "m' (pp_code r) = NA" using Cons.prems by metis
        with c True mT Cons show ?thesis by simp
      next
        case mF: False
        have "fill_rows (m'(pp_code r := m (pp_code r))) (fill_rows m rs) = fill_rows m rs"
          using Cons.prems by (intro Cons.IH) auto
        with c True mF show ?thesis by simp
      qed
    qed
  qed
qed

lemma seen_or_Cons:
  "seen_or d st (r # rs) = seen_or (if pp_code r = st \<and> pp_pol r \<noteq> NA then pp_pol r else d) st rs"
  by (auto simp: seen_or_def split: list.splits)

lemma fill_rows_nth:
  "i < length rs \<Longrightarrow>
   fill_rows m rs ! i =
     (rs ! i)\<lparr>pp_pol :=
        (if pp_pol (rs ! i) \<noteq> NA then pp_pol (rs ! i)
         else if pp_code (rs ! i) = NA then NA
         else seen_or (m (pp_code (rs ! i))) (pp_code (rs ! i)) (take i rs))\<rparr>"
proof (induction rs arbitrary: m i)
  case Nil
  then show ?case by simp
next
  case (Cons r rs)
  show ?case
  proof (cases i)
    case 0
    then show ?thesis by (simp add: seen_or_def)
  next
    case (Suc j)
    with Cons.prems have j: "j < length rs" by simp
    show ?thesis using Suc Cons.IH [OF j] by (simp add: seen_or_Cons)
  qed
qed

lemma AL_rows_filled:
  "ffill_per_state AL_rows = AL_rows[1 := (AL_rows ! 1)\<lparr>pp_pol := Str ''Republican''\<rparr>]"
  by (simp add: ffill_per_state_rows AL_rows_def)

text \<open>
  Claim C3. The forward fill of \<open>build_full\<close> keeps the number and the order of the
  rows and changes the column \<open>pol\<close> only: a value that is not missing stays; a missing
  value of a row with a state code becomes the most recent value that is not missing
  among the rows before it with the same state code, and stays missing when there is
  none (a row without a state code is in no state's selection and keeps its value).
  On the rows (AL, 1992, Republican), (AL, 1994, missing), (AL, 1996, Democrat) the
  value of 1994 becomes Republican and the other two rows stay as they are.
\<close>

theorem ffill_per_state_most_recent:
  "length (ffill_per_state data) = length data
   \<and> (\<forall>i < length data.
        ffill_per_state data ! i =
          (data ! i)\<lparr>pp_pol :=
             (if pp_pol (data ! i) \<noteq> NA then pp_pol (data ! i)
              else if pp_code (data ! i) = NA then NA
              else most_recent (pp_code (data ! i)) (take i data))\<rparr>)
   \<and> map pp_pol (ffill_per_state AL_rows) = [Str ''Republican'', Str ''Republican'', Str ''Democrat'']
   \<and> map pp_year (ffill_per_state AL_rows) = [1992, 1994, 1996]"
proof -
  have "seen_or NA st seen = most_recent st seen" for st and seen :: "'a pp_row list"
    by (simp add: seen_or_def most_recent_def)
  then have "\<forall>i < length data.
        ffill_per_state data ! i =
          (data ! i)\<lparr>pp_pol :=
             (if pp_pol (data ! i) \<noteq> NA then pp_pol (data ! i)
              else if pp_code (data ! i) = NA then NA
              else most_recent (pp_code (data ! i)) (take i data))\<rparr>"
    by (simp add: ffill_per_state_rows fill_rows_nth)
  moreover have "length (ffill_per_state data) = length data"
    by (simp add: ffill_per_state_rows fill_rows_length)
  moreover have "map pp_pol (ffill_per_state AL_rows) = [Str ''Republican'', Str ''Republican'', Str ''Democrat'']"
    by (simp add: AL_rows_filled) (simp add: AL_rows_def)
  moreover have "map pp_year (ffill_per_state AL_rows) = [1992, 1994, 1996]"
    by (simp add: AL_rows_filled) (simp add: AL_rows_def)
  ultimately show ?thesis by blast
qed

theorem ffill_per_state_most_recent_witness:
  "pp_pol (AL_rows ! 1) = NA \<and> pp_code (AL_rows ! 1) = Str ''AL''
   \<and> most_recent (Str ''AL'') (take 1 AL_rows) = Str ''Republican''
   \<and> pp_pol (ffill_per_state AL_rows ! 1) = Str ''Republican''
   \<and> pp_pol (ffill_per_state AL_rows ! 2) = Str ''Democrat''"
proof -
  have l: "length AL_rows = 3" by (simp add: AL_rows_def)
  have a: "pp_pol (AL_rows ! 1) = NA \<and> pp_code (AL_rows ! 1) = Str ''AL''
      \<and> pp_pol (AL_rows ! 2) = Str ''Democrat''"
    by (simp add: AL_rows_def)
  have m: "most_recent (Str ''AL'') (take 1 AL_rows) = Str ''Republican''"
    by (simp add: AL_rows_def most_recent_def)
  from ffill_per_state_most_recent [of AL_rows] l
  have "ffill_per_state AL_rows ! 1 =
          (AL_rows ! 1)\<lparr>pp_pol :=
             (if pp_pol (AL_rows ! 1) \<noteq> NA then pp_pol (AL_rows ! 1)
              else if pp_code (AL_rows ! 1) = NA then NA
              else most_recent (pp_code (AL_rows ! 1)) (take 1 AL_rows))\<rparr>"
    and "ffill_per_state AL_rows ! 2 =
          (AL_rows ! 2)\<lparr>pp_pol :=
             (if pp_pol (AL_rows ! 2) \<noteq> NA then pp_pol (AL_rows ! 2)
              else if pp_code (AL_rows ! 2) = NA then NA
              else most_recent (pp_code (AL_rows ! 2)) (take 2 AL_rows))\<rparr>"
    by simp_all
  with a m show ?thesis by simp
qed

text \<open>
  Claim C9. The forward fill is idempotent: filling a table twice gives the table
  filled once.
\<close>

theorem ffill_per_state_idempotent:
  "ffill_per_state (ffill_per_state data) = ffill_per_state data"
  by (simp add: ffill_per_state_rows fill_rows_idem)

theorem ffill_per_state_idempotent_witness:
  "ffill_per_state (ffill_per_state AL_rows) = ffill_per_state AL_rows
   \<and> ffill_per_state AL_rows \<noteq> AL_rows"
  using ffill_per_state_idempotent [of AL_rows]
  by (simp add: AL_rows_filled) (simp add: AL_rows_def)

section \<open>Properties of the energy cleaner\<close>

text \<open>
  Claim C10. A file name that contains neither "generation" nor "emission" makes
  \<open>load_clean_eng\<close> fail with an error, whatever the file holds; a file name that
  contains "generation" takes the generation branch, also when it contains "emission".
\<close>

theorem load_clean_eng_branches:
  "(\<not> contains ''generation'' filename \<and> \<not> contains ''emission'' filename
      \<longrightarrow> load_clean_eng filename d = Inl UnboundLocalError)
   \<and> (contains ''generation'' filename
      \<longrightarrow> load_clean_eng filename d = generation_branch d)"
  by (simp add: load_clean_eng_def)

theorem load_clean_eng_branches_witness:
  "\<not> contains ''generation'' ''pop.csv'' \<and> \<not> contains ''emission'' ''pop.csv''
   \<and> load_clean_eng ''pop.csv'' (GenFile []) = Inl UnboundLocalError
   \<and> contains ''generation'' ''emission_generation.csv''
   \<and> load_clean_eng ''emission_generation.csv'' (GenFile []) = Inr (GenClean [])"
  using load_clean_eng_branches [of "''pop.csv''" "GenFile []"]
    load_clean_eng_branches [of "''emission_generation.csv''" "GenFile []"]
  by (simp add: generation_branch_def object_dtype_def)

section \<open>Properties of the energy builder\<close>

lemma upper_samples:
  "upper ''al'' = ''AL''" "upper '' '' = '' ''" "upper ''DC'' = ''DC''"
  "upper ''US-Total'' = ''US-TOTAL''" "upper ''AL'' = ''AL''"
  by (simp_all add: upper_def upper_char_def)

lemma ENG_names:
  "contains ''generation'' (fst ENG)" "\<not> contains ''generation'' (snd ENG)"
  "contains ''emission'' (snd ENG)"
  by (simp_all add: ENG_def)

lemma canon_src_Coal: "canon_src ''Coal'' = ''Coal''"
  by (simp add: canon_src_def replace_str_def)

lemma sample_gen_clean:
  "load_clean_eng (fst ENG) (GenFile sample_gen) = Inr (GenClean
     [\<lparr> gn_year = Some 2000, gn_state = Str ''AL'', gn_src = Str ''Coal'',
         gn_gen_mwh = Some 100, gn_renew = ''Nonrenewable'' \<rparr>,
      \<lparr> gn_year = Some 2000, gn_state = Str '' '', gn_src = Str ''Coal'',
         gn_gen_mwh = Some 5, gn_renew = ''Nonrenewable'' \<rparr>,
      \<lparr> gn_year = Some 2000, gn_state = Str ''DC'', gn_src = Str ''Coal'',
         gn_gen_mwh = Some 7, gn_renew = ''Nonrenewable'' \<rparr>,
      \<lparr> gn_year = Some 2000, gn_state = Str ''US-TOTAL'', gn_src = Str ''Coal'',
         gn_gen_mwh = Some 112, gn_renew = ''Nonrenewable'' \<rparr>])"
  by (simp add: load_clean_eng_def ENG_names generation_branch_def sample_gen_def
      object_dtype_def TOTAL_INDUSTRY_def upper_samples canon_src_Coal renew_of_def)

lemma sample_emi_clean:
  "load_clean_eng (snd ENG) (EmiFile sample_emi) = Inr (EmiClean
     [\<lparr> em_year = Some 2000, em_state = Str ''AL'', em_src = Str ''Coal'',
         em_co2_tons = Some 50, em_so2_tons = Some 1, em_nox_tons = Some 2 \<rparr>])"
  by (simp add: load_clean_eng_def ENG_names emission_branch_def sample_emi_def
      object_dtype_def TOTAL_INDUSTRY_def upper_samples canon_src_Coal)

lemma sample_build_eng: "build_eng ENG sample_gen sample_emi = Inr sample_eng"
  by (simp add: build_eng_def sample_gen_clean sample_emi_clean merge_eng_def merge_left_def
      fill0_def fill0_int_def fill0_obj_def sample_eng_def)

lemma build_eng_Inr:
  assumes "build_eng files gen emi = Inr out"
  obtains g m where "load_clean_eng (fst files) (GenFile gen) = Inr (GenClean g)"
    and "load_clean_eng (snd files) (EmiFile emi) = Inr (EmiClean m)"
    and "out = filter (\<lambda>r. en_code r \<noteq> Str ''DC'')
                   (filter (\<lambda>r. en_code r \<noteq> Str ''  '')
                     (filter (\<lambda>r. en_code r \<noteq> Str ''US-TOTAL'')
                       (filter (\<lambda>r. en_code r \<noteq> Str ''US-Total'') (merge_eng g m))))"
  using assms unfolding build_eng_def
  by (auto split: sum.splits eng_clean.splits)

text \<open>
  Claim C6, as the code has it. The table returned by \<open>build_eng\<close> is the left-joined
  energy table, its missing cells filled with 0, without the rows whose state is
  "US-Total", "US-TOTAL", the string of exactly two blanks, or "DC"; all other rows are
  retained, in their order. The test for a blank state is the comparison with the
  string of two blanks: a state that is another blank string is retained.
\<close>

theorem build_eng_rows:
  assumes "build_eng files gen emi = Inr out"
  shows "\<exists>g m. load_clean_eng (fst files) (GenFile gen) = Inr (GenClean g)
           \<and> load_clean_eng (snd files) (EmiFile emi) = Inr (EmiClean m)
           \<and> out = filter (\<lambda>r. en_code r \<notin> {Str ''US-Total'', Str ''US-TOTAL'', Str ''  '', Str ''DC''})
                     (merge_eng g m)"
proof -
  from assms obtain g m where
    a: "load_clean_eng (fst files) (GenFile gen) = Inr (GenClean g)"
    and b: "load_clean_eng (snd files) (EmiFile emi) = Inr (EmiClean m)"
    and c: "out = filter (\<lambda>r. en_code r \<noteq> Str ''DC'')
                   (filter (\<lambda>r. en_code r \<noteq> Str ''  '')
                     (filter (\<lambda>r. en_code r \<noteq> Str ''US-TOTAL'')
                       (filter (\<lambda>r. en_code r \<noteq> Str ''US-Total'') (merge_eng g m))))"
    by (rule build_eng_Inr)
  have "out = filter (\<lambda>r. en_code r \<notin> {Str ''US-Total'', Str ''US-TOTAL'', Str ''  '', Str ''DC''})
                     (merge_eng g m)"
    unfolding c by (simp add: conj_commute conj_left_commute cong: filter_cong)
  with a b show ?thesis by blast
qed

theorem build_eng_rows_witness:
  "build_eng ENG sample_gen sample_emi = Inr sample_eng
   \<and> (\<exists>g m. load_clean_eng (fst ENG) (GenFile sample_gen) = Inr (GenClean g)
           \<and> load_clean_eng (snd ENG) (EmiFile sample_emi) = Inr (EmiClean m)
           \<and> sample_eng = filter (\<lambda>r. en_code r \<notin> {Str ''US-Total'', Str ''US-TOTAL'', Str ''  '', Str ''DC''})
                     (merge_eng g m))"
  using build_eng_rows [OF sample_build_eng] sample_build_eng by simp

text \<open>
  The claim as the specification states it fails: the state of one blank is
  whitespace-only, and its row is in the table returned.
\<close>

theorem build_eng_keeps_blank_state:
  "build_eng ENG sample_gen sample_emi = Inr sample_eng
   \<and> (\<exists>r \<in> set sample_eng. en_code r = Str '' '')"
  by (simp add: sample_build_eng) (simp add: sample_eng_def)

section \<open>Properties of the merges\<close>

lemma set_case_matches:
  "set (case filter P xs of [] \<Rightarrow> [d] | m # ms \<Rightarrow> map f (m # ms)) =
     (if \<forall>x \<in> set xs. \<not> P x then {d} else f ` {x \<in> set xs. P x})"
proof (cases "filter P xs")
  case Nil
  then show ?thesis by (simp add: filter_empty_conv)
next
  case (Cons m ms)
  then have "\<not> (\<forall>x \<in> set xs. \<not> P x)"
    by (metis filter_empty_conv list.distinct(1))
  moreover have "set (map f (m # ms)) = f ` {x \<in> set xs. P x}"
    unfolding Cons [symmetric] by simp
  ultimately show ?thesis using Cons by auto
qed

lemma set_merge_right:
  "set (merge_right on ls rs) =
     {(Some l, r) | l r. l \<in> set ls \<and> r \<in> set rs \<and> on l r}
     \<union> {(None, r) | r. r \<in> set rs \<and> (\<forall>l \<in> set ls. \<not> on l r)}"
  unfolding merge_right_def set_concat set_map image_image set_case_matches
  by (auto split: if_splits)

lemma set_merge_left:
  "set (merge_left on ls rs) =
     {(l, Some r) | l r. l \<in> set ls \<and> r \<in> set rs \<and> on l r}
     \<union> {(l, None) | l. l \<in> set ls \<and> (\<forall>r \<in> set rs. \<not> on l r)}"
  unfolding merge_left_def set_concat set_map image_image set_case_matches
  by (auto split: if_splits)

lemma set_merge_inner:
  "set (merge_inner on ls rs) = {(l, r) | l r. l \<in> set ls \<and> r \<in> set rs \<and> on l r}"
  by (auto simp: merge_inner_def)

lemma eng_of_sel: "en_year (eng_of r) = year r" "en_code (eng_of r) = code r"
  by (simp_all add: eng_of_def)

lemma eng_of_join: "eng_of (join_eng (l, e)) = e"
  by (simp add: eng_of_def join_eng_def)


text \<open>The rows of the right merge of line 250.\<close>

lemma set_merge_energy:
  "set (merge_energy data eng_df) =
     {join_eng (Some l, e) | l e. l \<in> set data \<and> e \<in> set eng_df
          \<and> pp_year l = en_year e \<and> pp_code l = en_code e}
     \<union> {join_eng (None, e) | e. e \<in> set eng_df
          \<and> (\<forall>l \<in> set data. \<not> (pp_year l = en_year e \<and> pp_code l = en_code e))}"
  unfolding merge_energy_def set_map set_merge_right by auto

text \<open>
  Claim C2. The merge of line 250 is a right join on year and code. Every row of the
  energy table is the energy part of a row of the result, and the energy part of every
  row of the result is a row of the energy table. A row of the result whose key has no
  match on the population side has population, pol and state missing; otherwise it
  carries the population, pol and state of a population row of its key, and every
  matching pair of rows is in the result. A population row whose key is not in the
  energy table is dropped: no row of the result has its key.
\<close>

theorem merge_energy_right_join:
  "(\<forall>e \<in> set eng_df. \<exists>r \<in> set (merge_energy data eng_df). eng_of r = e)
   \<and> (\<forall>r \<in> set (merge_energy data eng_df).
        eng_of r \<in> set eng_df
        \<and> ((\<forall>l \<in> set data. \<not> (pp_year l = year r \<and> pp_code l = code r))
             \<longrightarrow> pop r = None \<and> pol r = NA \<and> state r = NA)
        \<and> ((\<exists>l \<in> set data. pp_year l = year r \<and> pp_code l = code r)
             \<longrightarrow> (\<exists>l \<in> set data. pp_year l = year r \<and> pp_code l = code r
                    \<and> pop r = Some (pp_pop l) \<and> pol r = pp_pol l \<and> state r = Str (pp_state l))))
   \<and> (\<forall>l \<in> set data. \<forall>e \<in> set eng_df. pp_year l = en_year e \<and> pp_code l = en_code e
        \<longrightarrow> join_eng (Some l, e) \<in> set (merge_energy data eng_df))
   \<and> (\<forall>l \<in> set data.
        (\<forall>e \<in> set eng_df. \<not> (pp_year l = en_year e \<and> pp_code l = en_code e))
        \<longrightarrow> (\<forall>r \<in> set (merge_energy data eng_df). \<not> (year r = pp_year l \<and> code r = pp_code l)))"
proof -
  have A: "\<forall>e \<in> set eng_df. \<exists>r \<in> set (merge_energy data eng_df). eng_of r = e"
  proof
    fix e assume e: "e \<in> set eng_df"
    show "\<exists>r \<in> set (merge_energy data eng_df). eng_of r = e"
    proof (cases "\<forall>l \<in> set data. \<not> (pp_year l = en_year e \<and> pp_code l = en_code e)")
      case True
      with e have "join_eng (None, e) \<in> set (merge_energy data eng_df)"
        unfolding set_merge_energy by blast
      then show ?thesis using eng_of_join by blast
    next
      case False
      then obtain l where "l \<in> set data" "pp_year l = en_year e \<and> pp_code l = en_code e"
        by blast
      with e have "join_eng (Some l, e) \<in> set (merge_energy data eng_df)"
        unfolding set_merge_energy by blast
      then show ?thesis using eng_of_join by blast
    qed
  qed
  have B: "\<forall>r \<in> set (merge_energy data eng_df).
        eng_of r \<in> set eng_df
        \<and> ((\<forall>l \<in> set data. \<not> (pp_year l = year r \<and> pp_code l = code r))
             \<longrightarrow> pop r = None \<and> pol r = NA \<and> state r = NA)
        \<and> ((\<exists>l \<in> set data. pp_year l = year r \<and> pp_code l = code r)
             \<longrightarrow> (\<exists>l \<in> set data. pp_year l = year r \<and> pp_code l = code r
                    \<and> pop r = Some (pp_pop l) \<and> pol r = pp_pol l \<and> state r = Str (pp_state l)))"
  proof
    fix r assume "r \<in> set (merge_energy data eng_df)"
    then consider
      (matched) l e where "r = join_eng (Some l, e)" "l \<in> set data" "e \<in> set eng_df"
        "pp_year l = en_year e" "pp_code l = en_code e"
    | (alone) e where "r = join_eng (None, e)" "e \<in> set eng_df"
        "\<forall>l \<in> set data. \<not> (pp_year l = en_year e \<and> pp_code l = en_code e)"
      unfolding set_merge_energy by blast
    then show "eng_of r \<in> set eng_df
        \<and> ((\<forall>l \<in> set data. \<not> (pp_year l = year r \<and> pp_code l = code r))
             \<longrightarrow> pop r = None \<and> pol r = NA \<and> state r = NA)
        \<and> ((\<exists>l \<in> set data. pp_year l = year r \<and> pp_code l = code r)
             \<longrightarrow> (\<exists>l \<in> set data. pp_year l = year r \<and> pp_code l = code r
                    \<and> pop r = Some (pp_pop l) \<and> pol r = pp_pol l \<and> state r = Str (pp_state l)))"
    proof cases
      case matched
      then show ?thesis by (auto simp: eng_of_join) (auto simp: join_eng_def)
    next
      case alone
      then show ?thesis by (auto simp: eng_of_join) (auto simp: join_eng_def)
    qed
  qed
  have C: "\<forall>l \<in> set data. \<forall>e \<in> set eng_df. pp_year l = en_year e \<and> pp_code l = en_code e
        \<longrightarrow> join_eng (Some l, e) \<in> set (merge_energy data eng_df)"
    unfolding set_merge_energy by blast
  have D: "\<forall>l \<in> set data.
        (\<forall>e \<in> set eng_df. \<not> (pp_year l = en_year e \<and> pp_code l = en_code e))
        \<longrightarrow> (\<forall>r \<in> set (merge_energy data eng_df). \<not> (year r = pp_year l \<and> code r = pp_code l))"
    unfolding set_merge_energy by (auto simp: join_eng_def)
  show ?thesis by (rule conjI [OF A conjI [OF B conjI [OF C D]]])
qed

lemma sample_merge_energy:
  "merge_energy sample_data sample_eng =
     [join_eng (Some (sample_data ! 0), sample_eng ! 0), join_eng (None, sample_eng ! 1)]"
  by (simp add: merge_energy_def merge_right_def sample_data_def sample_eng_def)

theorem merge_energy_right_join_witness:
  "sample_eng ! 1 \<in> set sample_eng
   \<and> \<not> (\<exists>l \<in> set sample_data. pp_year l = en_year (sample_eng ! 1) \<and> pp_code l = en_code (sample_eng ! 1))
   \<and> (\<exists>r \<in> set (merge_energy sample_data sample_eng).
         eng_of r = sample_eng ! 1 \<and> pop r = None \<and> pol r = NA)
   \<and> sample_data ! 1 \<in> set sample_data
   \<and> \<not> (\<exists>e \<in> set sample_eng. pp_year (sample_data ! 1) = en_year e \<and> pp_code (sample_data ! 1) = en_code e)
   \<and> \<not> (\<exists>r \<in> set (merge_energy sample_data sample_eng).
         year r = pp_year (sample_data ! 1) \<and> code r = pp_code (sample_data ! 1))"
proof -
  have a: "sample_eng ! 1 \<in> set sample_eng" by (simp add: sample_eng_def)
  have b: "\<not> (\<exists>l \<in> set sample_data. pp_year l = en_year (sample_eng ! 1) \<and> pp_code l = en_code (sample_eng ! 1))"
    by (simp add: sample_eng_def sample_data_def)
  have c: "sample_data ! 1 \<in> set sample_data" by (simp add: sample_data_def)
  have d: "\<not> (\<exists>e \<in> set sample_eng. pp_year (sample_data ! 1) = en_year e \<and> pp_code (sample_data ! 1) = en_code e)"
    by (simp add: sample_eng_def sample_data_def)
  note t = merge_energy_right_join [of sample_eng sample_data]
  from t a obtain r where r: "r \<in> set (merge_energy sample_data sample_eng)" "eng_of r = sample_eng ! 1"
    by blast
  from r(2) have k: "year r = en_year (sample_eng ! 1)" "code r = en_code (sample_eng ! 1)"
    using eng_of_sel [of r] by simp_all
  from t r(1) b k have "pop r = None \<and> pol r = NA" by auto
  with r have e: "\<exists>r \<in> set (merge_energy sample_data sample_eng).
         eng_of r = sample_eng ! 1 \<and> pop r = None \<and> pol r = NA" by blast
  from t c d have f: "\<not> (\<exists>r \<in> set (merge_energy sample_data sample_eng).
         year r = pp_year (sample_data ! 1) \<and> code r = pp_code (sample_data ! 1))" by blast
  from a b c d e f show ?thesis by blast
qed

section \<open>The rows of the full table\<close>

lemma filter_map_of:
  "distinct (map fst tbl) \<Longrightarrow>
   filter (\<lambda>m. k = fst m) tbl = (case map_of tbl k of None \<Rightarrow> [] | Some v \<Rightarrow> [(k, v)])"
proof (induction tbl)
  case Nil
  then show ?case by simp
next
  case (Cons a tbl)
  show ?case
  proof (cases "k = fst a")
    case True
    with Cons.prems have "k \<notin> fst ` set tbl" by auto
    then have "filter (\<lambda>m. k = fst m) tbl = []" by (auto simp: filter_empty_conv)
    with True show ?thesis by (cases a) simp
  next
    case False
    with Cons show ?thesis by (cases a) auto
  qed
qed

lemma merge_left_map_of:
  assumes "distinct (map fst tbl)"
  shows "merge_left (\<lambda>l m. key l = fst m) ls tbl
           = map (\<lambda>l. (l, map_option (Pair (key l)) (map_of tbl (key l)))) ls"
proof -
  have "(case filter (\<lambda>m. key l = fst m) tbl of [] \<Rightarrow> [(l, None)] | m # ms \<Rightarrow> map (\<lambda>r. (l, Some r)) (m # ms))
          = [(l, map_option (Pair (key l)) (map_of tbl (key l)))]" for l
    by (simp add: filter_map_of [OF assms] split: option.splits)
  then show ?thesis by (simp add: merge_left_def)
qed

lemma distinct_group_keys: "distinct (group_keys ord_of missing ks)"
  by (simp add: group_keys_def)

lemma set_group_keys: "set (group_keys ord_of missing ks) = {k \<in> set ks. \<not> missing k}"
  by (auto simp: group_keys_def)

lemma map_of_keyed:
  "map_of (map (\<lambda>k. (k, f k)) ks) k = (if k \<in> set ks then Some (f k) else None)"
  by (induction ks) auto

lemma add_shares_map: "add_shares data = map (share_row data) data"
proof -
  let ?ks = "group_keys (\<lambda>k. (fst k, obj_ord (snd k))) (\<lambda>k. snd k = NA) (map (\<lambda>r. (year r, code r)) data)"
  have d: "distinct (map fst (sum_mwh data))"
    by (simp add: sum_mwh_def comp_def distinct_group_keys)
  have m: "map_of (sum_mwh data) (year r, code r)
             = (if code r = NA then None
                else Some (sum_list (map gen_mwh (filter (\<lambda>x. (year x, code x) = (year r, code r)) data)),
                           nansum (map mwh_pp (filter (\<lambda>x. (year x, code x) = (year r, code r)) data))))"
    if "r \<in> set data" for r
    using that unfolding sum_mwh_def map_of_keyed set_group_keys by auto
  have "add_shares data = map (\<lambda>(r, m).
            let sg = (case m of None \<Rightarrow> NaN | Some s \<Rightarrow> Fin (fst (snd s)));
                sp = (case m of None \<Rightarrow> NaN | Some s \<Rightarrow> snd (snd s))
            in pp_ext.extend r
                 (sums_ext.fields sg sp (fdiv (mwh_pp r) sp) (fdiv (Fin (gen_mwh r)) sg)))
       (map (\<lambda>l. (l, map_option (Pair (year l, code l)) (map_of (sum_mwh data) (year l, code l)))) data)"
    unfolding add_shares_def using merge_left_map_of [OF d, of "\<lambda>r. (year r, code r)" data] by simp
  also have "\<dots> = map (share_row data) data"
    by (rule map_ext | simp add: m share_row_def Let_def)+
  finally show ?thesis .
qed

lemma set_insert_desc: "set (insert_desc x ys) = insert x (set ys)"
  by (induction ys) auto

lemma length_insert_desc: "length (insert_desc x ys) = Suc (length ys)"
  by (induction ys) auto

lemma distinct_insert_desc:
  "distinct (map fst (insert_desc x ys)) = (fst x \<notin> fst ` set ys \<and> distinct (map fst ys))"
  by (induction ys) (auto simp: set_insert_desc)

lemma set_foldr_insert_desc: "set (foldr insert_desc xs []) = set xs"
  by (induction xs) (auto simp: set_insert_desc)

lemma length_foldr_insert_desc: "length (foldr insert_desc xs []) = length xs"
  by (induction xs) (auto simp: length_insert_desc)

lemma distinct_foldr_insert_desc:
  "distinct (map fst xs) \<Longrightarrow> distinct (map fst (foldr insert_desc xs []))"
  by (induction xs) (auto simp: distinct_insert_desc set_foldr_insert_desc)

lemma set_sort_values_desc: "set (sort_values_desc xs) = set xs"
  by (auto simp: sort_values_desc_def set_foldr_insert_desc)

lemma length_sort_values_desc: "length (sort_values_desc xs) = length xs"
  using sum_length_filter_compl [of "\<lambda>x. snd x \<noteq> NaN" xs]
  by (simp add: sort_values_desc_def length_foldr_insert_desc)

lemma distinct_sort_values_desc:
  assumes "distinct (map fst xs)"
  shows "distinct (map fst (sort_values_desc xs))"
proof -
  have a: "distinct (map fst (filter (\<lambda>x. snd x \<noteq> NaN) xs))"
    and b: "distinct (map fst (filter (\<lambda>x. snd x = NaN) xs))"
    using assms by (simp_all add: distinct_map_filter)
  have c: "fst ` set (filter (\<lambda>x. snd x \<noteq> NaN) xs) \<inter> fst ` set (filter (\<lambda>x. snd x = NaN) xs) = {}"
  proof (rule ccontr)
    assume "\<not> ?thesis"
    then obtain p q where pq: "p \<in> set xs" "q \<in> set xs" "snd p \<noteq> NaN" "snd q = NaN" "fst p = fst q"
      by auto
    with assms have "p = q" by (meson distinct_map inj_onD)
    with pq show False by simp
  qed
  show ?thesis
    unfolding sort_values_desc_def
    using distinct_foldr_insert_desc [OF a] b c
    by (simp add: set_foldr_insert_desc)
qed

lemma fl_less_trans_not:
  "a \<noteq> NaN \<Longrightarrow> b \<noteq> NaN \<Longrightarrow> c \<noteq> NaN \<Longrightarrow> \<not> fl_less a b \<Longrightarrow> \<not> fl_less b c \<Longrightarrow> \<not> fl_less a c"
  by (cases a; cases b; cases c) auto

lemma fl_less_asym: "fl_less a b \<Longrightarrow> \<not> fl_less b a"
  by (cases a; cases b) auto

lemma sorted_insert_desc:
  assumes "sorted_wrt (\<lambda>a b. \<not> fl_less (snd a) (snd b)) ys"
    and "snd x \<noteq> NaN" and "\<forall>y \<in> set ys. snd y \<noteq> NaN"
  shows "sorted_wrt (\<lambda>a b. \<not> fl_less (snd a) (snd b)) (insert_desc x ys)"
  using assms
proof (induction ys)
  case Nil
  then show ?case by simp
next
  case (Cons y ys)
  show ?case
  proof (cases "fl_less (snd x) (snd y)")
    case True
    have "\<not> fl_less (snd y) (snd x)" using True by (rule fl_less_asym)
    moreover have "sorted_wrt (\<lambda>a b. \<not> fl_less (snd a) (snd b)) (insert_desc x ys)"
      using Cons by simp
    ultimately show ?thesis using True Cons.prems by (auto simp: set_insert_desc)
  next
    case False
    have "\<not> fl_less (snd x) (snd z)" if "z \<in> set ys" for z
    proof -
      from that Cons.prems have "\<not> fl_less (snd y) (snd z)" "snd z \<noteq> NaN" "snd y \<noteq> NaN" by auto
      with False Cons.prems(2) show ?thesis using fl_less_trans_not by blast
    qed
    with False Cons.prems show ?thesis by auto
  qed
qed

lemma sorted_foldr_insert_desc:
  "\<forall>y \<in> set xs. snd y \<noteq> NaN \<Longrightarrow>
   sorted_wrt (\<lambda>a b. \<not> fl_less (snd a) (snd b)) (foldr insert_desc xs [])"
  by (induction xs) (auto intro!: sorted_insert_desc simp: set_foldr_insert_desc)

lemma hd_sort_values_desc:
  assumes "y \<in> set xs" and "snd y \<noteq> NaN"
  shows "sort_values_desc xs \<noteq> [] \<and> snd (hd (sort_values_desc xs)) \<noteq> NaN
         \<and> \<not> fl_less (snd (hd (sort_values_desc xs))) (snd y)"
proof -
  let ?ok = "filter (\<lambda>x. snd x \<noteq> NaN) xs"
  let ?s = "foldr insert_desc ?ok []"
  from assms have y: "y \<in> set ?s" by (simp add: set_foldr_insert_desc)
  then obtain z zs where s: "?s = z # zs" by (cases ?s) auto
  have srt: "sorted_wrt (\<lambda>a b. \<not> fl_less (snd a) (snd b)) ?s"
    by (rule sorted_foldr_insert_desc) simp
  have "z \<in> set ?s" using s by simp
  then have z: "snd z \<noteq> NaN" by (simp add: set_foldr_insert_desc)
  have "\<not> fl_less (snd z) (snd y)"
  proof (cases "y = z")
    case True
    then show ?thesis using fl_less_asym by blast
  next
    case False
    with y s have "y \<in> set zs" by simp
    with srt s show ?thesis by simp
  qed
  with z s show ?thesis by (simp add: sort_values_desc_def)
qed

lemma map_of_zip_upt:
  assumes "distinct ks"
  shows "(map_of (zip ks [1..<Suc (length ks)]) s = Some n)
           = (1 \<le> n \<and> n \<le> length ks \<and> ks ! (n - 1) = s)"
proof
  assume "map_of (zip ks [1..<Suc (length ks)]) s = Some n"
  then have "(s, n) \<in> set (zip ks [1..<Suc (length ks)])" by (rule map_of_SomeD)
  then obtain i where i: "i < length ks" "ks ! i = s" "[1..<Suc (length ks)] ! i = n"
    by (auto simp: in_set_zip)
  from i(1) have "[1..<Suc (length ks)] ! i = 1 + i" by (intro nth_upt) simp
  with i show "1 \<le> n \<and> n \<le> length ks \<and> ks ! (n - 1) = s" by auto
next
  assume a: "1 \<le> n \<and> n \<le> length ks \<and> ks ! (n - 1) = s"
  then have i: "n - 1 < length ks" by auto
  then have u: "[1..<Suc (length ks)] ! (n - 1) = 1 + (n - 1)" by (intro nth_upt) simp
  have "map_of (zip ks [1..<Suc (length ks)]) (ks ! (n - 1)) = Some ([1..<Suc (length ks)] ! (n - 1))"
    using assms i by (intro map_of_zip_nth) (simp_all del: upt_Suc)
  with a u show "map_of (zip ks [1..<Suc (length ks)]) s = Some n" by auto
qed

lemma capita_row_sel:
  "year (capita_row j) = year j" "code (capita_row j) = code j" "pop (capita_row j) = pop j"
  "src (capita_row j) = src j" "gen_mwh (capita_row j) = gen_mwh j"
  "co2_tons (capita_row j) = co2_tons j" "state (capita_row j) = state j"
  "pol (capita_row j) = pol j"
  "co2_pp (capita_row j) = fdiv (Fin (co2_tons j)) (num_of (pop j))"
  "mwh_pp (capita_row j) = fdiv (Fin (gen_mwh j)) (num_of (pop j))"
  by (simp_all add: capita_row_def joined_row.defs pp_ext.defs)

lemma share_row_sel:
  "year (share_row P p) = year p" "code (share_row P p) = code p" "pop (share_row P p) = pop p"
  "src (share_row P p) = src p" "gen_mwh (share_row P p) = gen_mwh p"
  "co2_tons (share_row P p) = co2_tons p" "state (share_row P p) = state p"
  "pol (share_row P p) = pol p"
  "co2_pp (share_row P p) = co2_pp p" "mwh_pp (share_row P p) = mwh_pp p"
  "sum_gen_mwh (share_row P p) =
     (if code p = NA then NaN
      else Fin (sum_list (map gen_mwh (filter (\<lambda>x. (year x, code x) = (year p, code p)) P))))"
  "gen_mwh_pct (share_row P p) = fdiv (Fin (gen_mwh p)) (sum_gen_mwh (share_row P p))"
  by (simp_all add: share_row_def Let_def pp_ext.defs sums_ext.defs)

lemma rank_row_sel:
  "year (rank_row S s) = year s" "code (rank_row S s) = code s" "pop (rank_row S s) = pop s"
  "src (rank_row S s) = src s" "gen_mwh (rank_row S s) = gen_mwh s"
  "co2_tons (rank_row S s) = co2_tons s" "state (rank_row S s) = state s"
  "pol (rank_row S s) = pol s"
  "co2_pp (rank_row S s) = co2_pp s" "mwh_pp (rank_row S s) = mwh_pp s"
  "sum_gen_mwh (rank_row S s) = sum_gen_mwh s" "gen_mwh_pct (rank_row S s) = gen_mwh_pct s"
  "rank (rank_row S s) = map_of (rank_table S) (src s)"
  by (simp_all add: rank_row_def sums_ext.defs full_row.defs)

lemma add_per_capita_map: "add_per_capita data = map capita_row data"
  by (simp add: add_per_capita_def capita_row_def)

lemma mwh_co2_keys:
  "distinct (map fst (mwh_co2 data))"
  "set (map fst (mwh_co2 data)) = {s \<in> src ` set data. s \<noteq> NA}"
  "length (map fst (mwh_co2 data)) = card {s \<in> src ` set data. s \<noteq> NA}"
proof -
  let ?ks = "group_keys obj_ord (\<lambda>k. k = NA) (map src data)"
  let ?T = "map (\<lambda>k. (k, fdiv (Fin (sum_list (map co2_tons (filter (\<lambda>r. src r = k) data))))
                          (Fin (sum_list (map gen_mwh (filter (\<lambda>r. src r = k) data)))))) ?ks"
  have T: "map fst ?T = ?ks" by (simp add: comp_def)
  have m: "mwh_co2 data = sort_values_desc ?T" by (simp add: mwh_co2_def)
  show d: "distinct (map fst (mwh_co2 data))"
    unfolding m by (rule distinct_sort_values_desc) (simp only: T distinct_group_keys)
  have "set (map fst (mwh_co2 data)) = fst ` set ?T"
    unfolding m by (simp add: set_sort_values_desc)
  also have "\<dots> = set ?ks" using T by (metis set_map)
  also have "\<dots> = {s \<in> src ` set data. s \<noteq> NA}" by (auto simp: set_group_keys)
  finally show st: "set (map fst (mwh_co2 data)) = {s \<in> src ` set data. s \<noteq> NA}" .
  from d st show "length (map fst (mwh_co2 data)) = card {s \<in> src ` set data. s \<noteq> NA}"
    by (metis distinct_card)
qed

lemma mwh_co2_values:
  "(s, v) \<in> set (mwh_co2 data) \<Longrightarrow> v = co2_per_mwh data s"
  by (auto simp: mwh_co2_def set_sort_values_desc co2_per_mwh_def)

lemma rank_table_keys: "map fst (rank_table data) = map fst (mwh_co2 data)"
  by (simp add: rank_table_def del: upt_Suc)

lemma rank_table_Some:
  "(map_of (rank_table data) s = Some n)
     = (1 \<le> n \<and> n \<le> length (mwh_co2 data) \<and> map fst (mwh_co2 data) ! (n - 1) = s)"
  using map_of_zip_upt [OF mwh_co2_keys(1), of data s n]
  by (simp add: rank_table_def del: upt_Suc)

lemma add_rank_map: "add_rank data = map (rank_row data) data"
proof -
  have d: "distinct (map fst (rank_table data))"
    by (simp only: rank_table_keys mwh_co2_keys(1))
  show ?thesis
    unfolding add_rank_def merge_left_map_of [OF d, of src data]
    by (simp add: rank_row_def comp_def option.map_comp option.map_ident)
qed

lemma build_full_Inr:
  assumes "build_full codes pops leg gen emi = Inr out"
  obtains eng_df pop_df pol_df data where
    "build_eng ENG gen emi = Inr eng_df" "build_pop codes pops = Inr pop_df"
    "load_clean_pol codes leg = Inr pol_df"
    "cast_year (merge_pop_pol pop_df pol_df) = Inr data"
    "out = add_rank (add_shares (add_per_capita (merge_energy (ffill_per_state data) eng_df)))"
  using assms unfolding build_full_def by (auto split: sum.splits)

lemma fill0_obj_not_NA: "fill0_obj x \<noteq> NA"
  by (simp add: fill0_obj_def)

lemma build_eng_no_NA:
  assumes "build_eng files gen emi = Inr eng_df" and "e \<in> set eng_df"
  shows "en_src e \<noteq> NA" and "en_code e \<noteq> NA"
proof -
  from assms(1) obtain g m where
    "eng_df = filter (\<lambda>r. en_code r \<noteq> Str ''DC'')
                   (filter (\<lambda>r. en_code r \<noteq> Str ''  '')
                     (filter (\<lambda>r. en_code r \<noteq> Str ''US-TOTAL'')
                       (filter (\<lambda>r. en_code r \<noteq> Str ''US-Total'') (merge_eng g m))))"
    by (rule build_eng_Inr)
  with assms(2) have "e \<in> set (merge_eng g m)" by simp
  then show "en_src e \<noteq> NA" and "en_code e \<noteq> NA"
    by (auto simp: merge_eng_def fill0_obj_not_NA)
qed

lemma merge_energy_eng:
  "j \<in> set (merge_energy data eng_df) \<Longrightarrow>
   \<exists>e \<in> set eng_df. src j = en_src e \<and> code j = en_code e \<and> year j = en_year e"
  unfolding set_merge_energy by (auto simp: join_eng_def)

lemma build_full_rows:
  assumes "build_full codes pops leg gen emi = Inr out"
  obtains eng_df pop_df pol_df data J P S where
    "build_eng ENG gen emi = Inr eng_df" "build_pop codes pops = Inr pop_df"
    "load_clean_pol codes leg = Inr pol_df"
    "cast_year (merge_pop_pol pop_df pol_df) = Inr data"
    "J = merge_energy (ffill_per_state data) eng_df"
    "P = map capita_row J" "S = map (share_row P) P" "out = map (rank_row S) S"
proof -
  from assms obtain eng_df pop_df pol_df data where
    a: "build_eng ENG gen emi = Inr eng_df" "build_pop codes pops = Inr pop_df"
    "load_clean_pol codes leg = Inr pol_df"
    "cast_year (merge_pop_pol pop_df pol_df) = Inr data"
    and o: "out = add_rank (add_shares (add_per_capita (merge_energy (ffill_per_state data) eng_df)))"
    by (rule build_full_Inr)
  let ?J = "merge_energy (ffill_per_state data) eng_df"
  let ?P = "map capita_row ?J"
  let ?S = "map (share_row ?P) ?P"
  have "out = map (rank_row ?S) ?S"
    unfolding o add_per_capita_map add_shares_map add_rank_map ..
  with a show ?thesis using that by blast
qed

lemma co2_per_mwh_map:
  assumes "\<And>x. src (h x) = src x" "\<And>x. co2_tons (h x) = co2_tons x" "\<And>x. gen_mwh (h x) = gen_mwh x"
  shows "co2_per_mwh (map h xs) s = co2_per_mwh xs s"
  by (simp add: co2_per_mwh_def filter_map comp_def assms)

section \<open>A run of the pipeline\<close>

lemma sample_load_codes:
  "load_codes sample_codes = Inr [\<lparr> c_state = Str ''Alabama'', c_code = Str ''AL'' \<rparr>]"
  by (simp add: load_codes_def sample_codes_def object_dtype_def upper_samples)

lemma strip_Alabama: "strip_chars PUNCTUATION ''.Alabama'' = ''Alabama''"
  by (simp add: strip_chars_def PUNCTUATION_def)

lemma sample_merge_files:
  "merge_files sample_pop90 [sample_pop00, sample_pop10] =
     Inr \<lparr> w_cols = [''1990'', ''2000'', ''2010''],
           w_rows = [(''.Alabama'', [4040389, 4452173, 4785437])] \<rparr>"
  by (simp add: sample_pop90_def sample_pop00_def sample_pop10_def merge_state_def
      suffix_clash_def suffixed_def merge_inner_def)

lemma sample_build_pop: "build_pop sample_codes sample_pops = Inr sample_pop_df"
  unfolding build_pop_def sample_load_codes sample_pops_def
  by (simp add: sample_merge_files strip_Alabama suffix_clash_def suffixed_def merge_inner_def
      melt_def short_cols_def short_vals_def sample_pop_df_def upt_rec
      del: merge_files.simps)

lemma sample_load_clean_pol: "load_clean_pol sample_codes sample_leg = Inr sample_pol_df"
  unfolding load_clean_pol_def sample_load_codes
  by (simp add: sample_leg_def object_dtype_def suffix_clash_def suffixed_def merge_inner_def
      melt_def clean_pol_cell_def strip_chars_def PUNCTUATION_def replace_str_def fill_split_def
      sample_pol_df_def)

lemma upper_pr: "upper ''pr'' = ''PR''"
  by (simp add: upper_def upper_char_def)

lemma canon_src_Gas: "canon_src ''Natural Gas'' = ''Natural Gas''"
  by (simp add: canon_src_def replace_str_def)

lemma sample_gen2_clean:
  "load_clean_eng (fst ENG) (GenFile sample_gen2) = Inr (GenClean
     [\<lparr> gn_year = Some 2000, gn_state = Str ''AL'', gn_src = Str ''Coal'',
         gn_gen_mwh = Some 100, gn_renew = ''Nonrenewable'' \<rparr>,
      \<lparr> gn_year = Some 2000, gn_state = Str ''AL'', gn_src = Str ''Natural Gas'',
         gn_gen_mwh = Some 300, gn_renew = ''Nonrenewable'' \<rparr>,
      \<lparr> gn_year = Some 2000, gn_state = Str ''PR'', gn_src = Str ''Coal'',
         gn_gen_mwh = Some 50, gn_renew = ''Nonrenewable'' \<rparr>])"
  by (simp add: load_clean_eng_def ENG_names generation_branch_def sample_gen2_def
      object_dtype_def TOTAL_INDUSTRY_def upper_samples upper_pr canon_src_Coal canon_src_Gas
      renew_of_def)

lemma sample_emi2_clean:
  "load_clean_eng (snd ENG) (EmiFile sample_emi2) = Inr (EmiClean
     [\<lparr> em_year = Some 2000, em_state = Str ''AL'', em_src = Str ''Coal'',
         em_co2_tons = Some 50, em_so2_tons = Some 1, em_nox_tons = Some 2 \<rparr>,
      \<lparr> em_year = Some 2000, em_state = Str ''AL'', em_src = Str ''Natural Gas'',
         em_co2_tons = Some 60, em_so2_tons = Some 0, em_nox_tons = Some 1 \<rparr>])"
  by (simp add: load_clean_eng_def ENG_names emission_branch_def sample_emi2_def
      object_dtype_def TOTAL_INDUSTRY_def upper_samples canon_src_Coal canon_src_Gas)

lemma sample_build_eng2: "build_eng ENG sample_gen2 sample_emi2 = Inr sample_eng2"
  by (simp add: build_eng_def sample_gen2_clean sample_emi2_clean merge_eng_def merge_left_def
      fill0_def fill0_int_def fill0_obj_def sample_eng2_def)

lemma py_int_years: "py_int ''1990'' = Some 1990" "py_int ''2000'' = Some 2000" "py_int ''2010'' = Some 2010"
  by (simp_all add: py_int_def is_space_def is_digit_def)

lemma sample_cast_year:
  "cast_year (merge_pop_pol sample_pop_df sample_pol_df) = Inr
     [\<lparr>pp_state = ''Alabama'', pp_code = Str ''AL'', pp_year = 1990, pp_pop = 4040389, pp_pol = Str ''Democrat''\<rparr>,
      \<lparr>pp_state = ''Alabama'', pp_code = Str ''AL'', pp_year = 2000, pp_pop = 4452173, pp_pol = NA\<rparr>,
      \<lparr>pp_state = ''Alabama'', pp_code = Str ''AL'', pp_year = 2010, pp_pop = 4785437, pp_pol = NA\<rparr>]"
  by (simp add: merge_pop_pol_def merge_left_def sample_pop_df_def sample_pol_df_def py_int_years)

lemma sample_ffill:
  "ffill_per_state
     [\<lparr>pp_state = ''Alabama'', pp_code = Str ''AL'', pp_year = 1990::int, pp_pop = 4040389, pp_pol = Str ''Democrat''\<rparr>,
      \<lparr>pp_state = ''Alabama'', pp_code = Str ''AL'', pp_year = 2000, pp_pop = 4452173, pp_pol = NA\<rparr>,
      \<lparr>pp_state = ''Alabama'', pp_code = Str ''AL'', pp_year = 2010, pp_pop = 4785437, pp_pol = NA\<rparr>]
   = sample_filled"
  by (simp add: ffill_per_state_rows sample_filled_def)

lemma sample_merge_energy2: "merge_energy sample_filled sample_eng2 = sample_joined"
  by (simp add: merge_energy_def merge_right_def sample_filled_def sample_eng2_def join_eng_def
      sample_joined_def)

lemma sample_add_per_capita: "add_per_capita sample_joined = sample_capita"
  by (simp add: add_per_capita_def sample_joined_def sample_capita_def
      joined_row.defs pp_ext.defs num_of_def)

lemma sample_add_shares: "add_shares sample_capita = sample_sums"
  unfolding add_shares_map
  by (simp add: sample_capita_def sample_sums_def share_row_def pp_ext.defs sums_ext.defs
      nansum_def)

lemma sample_mwh_co2:
  "mwh_co2 sample_sums = [(Str ''Coal'', Fin (1 / 3)), (Str ''Natural Gas'', Fin (1 / 5))]"
  by (simp add: mwh_co2_def sample_sums_def group_keys_def obj_ord_def sort_values_desc_def)

lemma sample_add_rank: "add_rank sample_sums = sample_full"
proof -
  have "rank_row sample_sums =
      (\<lambda>r. sums_ext.extend r
             (full_row.fields (map_of [(Str ''Coal'', 1), (Str ''Natural Gas'', 2)] (src r))))"
    by (rule ext) (simp add: rank_row_def rank_table_def sample_mwh_co2 numeral_2_eq_2)
  then show ?thesis
    unfolding add_rank_map
    by (simp add: sample_sums_def sample_full_def sums_ext.defs full_row.defs)
qed

lemma sample_build_full:
  "build_full sample_codes sample_pops sample_leg sample_gen2 sample_emi2 = Inr sample_full"
  by (simp add: build_full_def sample_build_eng2 sample_build_pop sample_load_clean_pol
      sample_cast_year sample_ffill sample_merge_energy2 sample_add_per_capita
      sample_add_shares sample_add_rank)

lemma sample_full_rows:
  "sample_full ! 0 \<in> set sample_full" "sample_full ! 1 \<in> set sample_full"
  "sample_full ! 2 \<in> set sample_full"
  by (simp_all add: sample_full_def)

section \<open>Properties of the full table\<close>

text \<open>
  Claim C7. In every row of the table returned by \<open>build_full\<close> whose population is
  present and greater than 0, \<open>co2_pp\<close> is \<open>co2_tons\<close> divided by the population and
  \<open>mwh_pp\<close> is \<open>gen_mwh\<close> divided by the population; in every row whose population is
  missing, \<open>co2_pp\<close> (and \<open>mwh_pp\<close>) is undefined. The quotients are exact quotients
  of real numbers.
\<close>

theorem build_full_per_capita:
  assumes "build_full codes pops leg gen emi = Inr out" and "r \<in> set out"
  shows "(\<forall>p. pop r = Some p \<and> 0 < p \<longrightarrow>
            co2_pp r = Fin (co2_tons r / p) \<and> mwh_pp r = Fin (gen_mwh r / p))
         \<and> (pop r = None \<longrightarrow> co2_pp r = NaN \<and> mwh_pp r = NaN)"
proof -
  from assms(1) obtain J P S where
    P: "P = map capita_row J" and S: "S = map (share_row P) P" and o: "out = map (rank_row S) S"
    by (rule build_full_rows)
  from assms(2) obtain j where j: "r = rank_row S (share_row P (capita_row j))"
    unfolding o S P by auto
  have "co2_pp r = fdiv (Fin (co2_tons r)) (num_of (pop r))"
    and "mwh_pp r = fdiv (Fin (gen_mwh r)) (num_of (pop r))"
    unfolding j by (simp_all add: rank_row_sel share_row_sel capita_row_sel)
  then show ?thesis by (auto simp: num_of_def)
qed

theorem build_full_per_capita_witness:
  "build_full sample_codes sample_pops sample_leg sample_gen2 sample_emi2 = Inr sample_full
   \<and> pop (sample_full ! 0) = Some 4452173
   \<and> co2_pp (sample_full ! 0) = Fin (co2_tons (sample_full ! 0) / 4452173)
   \<and> mwh_pp (sample_full ! 0) = Fin (gen_mwh (sample_full ! 0) / 4452173)
   \<and> pop (sample_full ! 2) = None
   \<and> co2_pp (sample_full ! 2) = NaN"
proof -
  have a: "pop (sample_full ! 0) = Some 4452173" and b: "pop (sample_full ! 2) = None"
    by (simp_all add: sample_full_def)
  from build_full_per_capita [OF sample_build_full sample_full_rows(1)] a
  have c: "co2_pp (sample_full ! 0) = Fin (co2_tons (sample_full ! 0) / 4452173)
           \<and> mwh_pp (sample_full ! 0) = Fin (gen_mwh (sample_full ! 0) / 4452173)"
    by simp
  from build_full_per_capita [OF sample_build_full sample_full_rows(3)] b
  have d: "co2_pp (sample_full ! 2) = NaN" by simp
  from a b c d sample_build_full show ?thesis by simp
qed

text \<open>
  Claim C4. In the table returned by \<open>build_full\<close>, with N the number of distinct
  sources: every row has a rank between 1 and N; two rows have the same rank exactly
  when they have the same source; every rank from 1 to N is the rank of some row; and
  the source of rank 1 has the highest ratio of the sum of \<open>co2_tons\<close> to the sum
  of \<open>gen_mwh\<close> over the whole table: its ratio is defined and not less than the ratio
  of any source whose ratio is defined.
\<close>

theorem build_full_rank:
  assumes "build_full codes pops leg gen emi = Inr out"
  shows "(\<forall>r \<in> set out. \<exists>n. rank r = Some n \<and> 1 \<le> n \<and> n \<le> card (src ` set out))
         \<and> (\<forall>r \<in> set out. \<forall>r' \<in> set out. (rank r = rank r') = (src r = src r'))
         \<and> (\<forall>n. 1 \<le> n \<and> n \<le> card (src ` set out) \<longrightarrow> (\<exists>r \<in> set out. rank r = Some n))
         \<and> (\<forall>r \<in> set out. \<forall>r' \<in> set out.
               rank r = Some 1 \<and> co2_per_mwh out (src r') \<noteq> NaN \<longrightarrow>
               co2_per_mwh out (src r) \<noteq> NaN
               \<and> \<not> fl_less (co2_per_mwh out (src r)) (co2_per_mwh out (src r')))"
proof -
  from assms obtain eng_df data J P S where
    eng: "build_eng ENG gen emi = Inr eng_df"
    and J: "J = merge_energy (ffill_per_state data) eng_df"
    and P: "P = map capita_row J" and S: "S = map (share_row P) P" and o: "out = map (rank_row S) S"
    by (rule build_full_rows)
  let ?ks = "map fst (mwh_co2 S)"
  have srcS: "src s \<noteq> NA" if "s \<in> set S" for s
  proof -
    from that obtain j where "j \<in> set J" "s = share_row P (capita_row j)" unfolding S P by auto
    moreover from this(1) obtain e where "e \<in> set eng_df" "src j = en_src e"
      unfolding J using merge_energy_eng by blast
    ultimately show ?thesis
      using build_eng_no_NA(1) [OF eng] by (simp add: share_row_sel capita_row_sel)
  qed
  have src_out: "src ` set out = src ` set S"
    unfolding o by (simp add: image_image rank_row_sel)
  have keys: "set ?ks = src ` set S"
    unfolding mwh_co2_keys(2) using srcS by auto
  have len: "length (mwh_co2 S) = card (src ` set out)"
    using mwh_co2_keys(3) [of S] keys mwh_co2_keys(2) [of S] src_out by simp
  have d: "distinct ?ks" by (rule mwh_co2_keys(1))
  have rk: "rank (rank_row S s) = map_of (rank_table S) (src s)" for s
    by (rule rank_row_sel)
  have ratio: "co2_per_mwh out s = co2_per_mwh S s" for s
    unfolding o by (rule co2_per_mwh_map) (simp_all add: rank_row_sel)
  have ex: "\<exists>n. map_of (rank_table S) (src s) = Some n \<and> 1 \<le> n \<and> n \<le> length (mwh_co2 S)"
    if "s \<in> set S" for s
  proof -
    from that keys have "src s \<in> set ?ks" by auto
    then obtain i where i: "i < length ?ks" "?ks ! i = src s" by (auto simp: in_set_conv_nth)
    then have "map_of (rank_table S) (src s) = Some (Suc i)"
      unfolding rank_table_Some by simp
    with i(1) show ?thesis by simp
  qed
  have A: "\<forall>r \<in> set out. \<exists>n. rank r = Some n \<and> 1 \<le> n \<and> n \<le> card (src ` set out)"
    unfolding o using ex by (auto simp: rk len [unfolded o])
  have B: "\<forall>r \<in> set out. \<forall>r' \<in> set out. (rank r = rank r') = (src r = src r')"
  proof (intro ballI)
    fix r r' assume "r \<in> set out" "r' \<in> set out"
    then obtain s s' where s: "s \<in> set S" "r = rank_row S s" "s' \<in> set S" "r' = rank_row S s'"
      unfolding o by auto
    from ex [OF s(1)] obtain n where n: "map_of (rank_table S) (src s) = Some n" by blast
    from ex [OF s(3)] obtain n' where n': "map_of (rank_table S) (src s') = Some n'" by blast
    have "(n = n') = (src s = src s')"
    proof
      assume "n = n'"
      with n n' show "src s = src s'" unfolding rank_table_Some by auto
    next
      assume "src s = src s'"
      with n n' show "n = n'" by simp
    qed
    then show "(rank r = rank r') = (src r = src r')"
      unfolding s(2) s(4) by (simp add: rank_row_sel n n')
  qed
  have C: "\<forall>n. 1 \<le> n \<and> n \<le> card (src ` set out) \<longrightarrow> (\<exists>r \<in> set out. rank r = Some n)"
  proof (intro allI impI)
    fix n assume n: "1 \<le> n \<and> n \<le> card (src ` set out)"
    then have i: "n - 1 < length ?ks" using len by auto
    then have "?ks ! (n - 1) \<in> set ?ks" by (rule nth_mem)
    with keys obtain s where s: "s \<in> set S" "src s = ?ks ! (n - 1)" by auto
    have "map_of (rank_table S) (src s) = Some n"
      unfolding rank_table_Some using n len s(2) by simp
    with s(1) show "\<exists>r \<in> set out. rank r = Some n"
      unfolding o by (auto simp: rk)
  qed
  have D: "\<forall>r \<in> set out. \<forall>r' \<in> set out.
               rank r = Some 1 \<and> co2_per_mwh out (src r') \<noteq> NaN \<longrightarrow>
               co2_per_mwh out (src r) \<noteq> NaN
               \<and> \<not> fl_less (co2_per_mwh out (src r)) (co2_per_mwh out (src r'))"
  proof (intro ballI impI)
    fix r r' assume "r \<in> set out" "r' \<in> set out"
      and h: "rank r = Some 1 \<and> co2_per_mwh out (src r') \<noteq> NaN"
    then obtain s s' where s: "s \<in> set S" "r = rank_row S s" "s' \<in> set S" "r' = rank_row S s'"
      unfolding o by auto
    from h have "map_of (rank_table S) (src s) = Some 1" unfolding s(2) by (simp add: rk)
    then have first: "?ks ! 0 = src s" and ne: "mwh_co2 S \<noteq> []"
      unfolding rank_table_Some by auto
    then have hd: "fst (hd (mwh_co2 S)) = src s" by (simp add: hd_conv_nth)
    from s(3) keys have "src s' \<in> fst ` set (mwh_co2 S)" by auto
    then obtain v where v: "(src s', v) \<in> set (mwh_co2 S)" by force
    then have v': "v = co2_per_mwh S (src s')" by (rule mwh_co2_values)
    with h have vn: "v \<noteq> NaN" unfolding s(4) by (simp add: ratio rank_row_sel)
    let ?T = "map (\<lambda>k. (k, fdiv (Fin (sum_list (map co2_tons (filter (\<lambda>r. src r = k) S))))
                          (Fin (sum_list (map gen_mwh (filter (\<lambda>r. src r = k) S))))))
          (group_keys obj_ord (\<lambda>k. k = NA) (map src S))"
    have m: "mwh_co2 S = sort_values_desc ?T" by (simp add: mwh_co2_def)
    from v have vT: "(src s', v) \<in> set ?T" unfolding m set_sort_values_desc .
    from hd_sort_values_desc [OF vT] vn
    have top: "snd (hd (mwh_co2 S)) \<noteq> NaN" "\<not> fl_less (snd (hd (mwh_co2 S))) v"
      unfolding m by simp_all
    have "hd (mwh_co2 S) \<in> set (mwh_co2 S)" using ne by simp
    then have "(src s, snd (hd (mwh_co2 S))) \<in> set (mwh_co2 S)"
      using hd by (metis prod.collapse)
    then have "snd (hd (mwh_co2 S)) = co2_per_mwh S (src s)" by (rule mwh_co2_values)
    with top v' show "co2_per_mwh out (src r) \<noteq> NaN
               \<and> \<not> fl_less (co2_per_mwh out (src r)) (co2_per_mwh out (src r'))"
      unfolding s(2) s(4) by (simp add: ratio rank_row_sel)
  qed
  show ?thesis by (rule conjI [OF A conjI [OF B conjI [OF C D]]])
qed

theorem build_full_rank_witness:
  "build_full sample_codes sample_pops sample_leg sample_gen2 sample_emi2 = Inr sample_full
   \<and> src ` set sample_full = {Str ''Coal'', Str ''Natural Gas''}
   \<and> card (src ` set sample_full) = 2
   \<and> (\<exists>r \<in> set sample_full. rank r = Some 1)
   \<and> (\<exists>r \<in> set sample_full. rank r = Some 2)
   \<and> rank (sample_full ! 0) = Some 1 \<and> rank (sample_full ! 2) = Some 1
   \<and> src (sample_full ! 0) = src (sample_full ! 2)
   \<and> co2_per_mwh sample_full (src (sample_full ! 1)) = Fin (1 / 5)
   \<and> \<not> fl_less (co2_per_mwh sample_full (src (sample_full ! 0)))
               (co2_per_mwh sample_full (src (sample_full ! 1)))"
proof -
  note t = build_full_rank [OF sample_build_full]
  have s: "src ` set sample_full = {Str ''Coal'', Str ''Natural Gas''}"
    by (auto simp: sample_full_def)
  have c: "card (src ` set sample_full) = 2" unfolding s by simp
  from t c have e1: "\<exists>r \<in> set sample_full. rank r = Some 1" by auto
  from t c have e2: "\<exists>r \<in> set sample_full. rank r = Some 2" by auto
  have r: "rank (sample_full ! 0) = Some 1" "src (sample_full ! 0) = src (sample_full ! 2)"
    by (simp_all add: sample_full_def)
  from t sample_full_rows(1,3) r(2) have "rank (sample_full ! 0) = rank (sample_full ! 2)"
    by blast
  with r have r2: "rank (sample_full ! 2) = Some 1" by simp
  have q: "co2_per_mwh sample_full (src (sample_full ! 1)) = Fin (1 / 5)"
    by (simp add: co2_per_mwh_def sample_full_def)
  from t sample_full_rows(1,2) r(1) q
  have "\<not> fl_less (co2_per_mwh sample_full (src (sample_full ! 0)))
               (co2_per_mwh sample_full (src (sample_full ! 1)))"
    by (metis fl.distinct(5))
  with s c e1 e2 r r2 q sample_build_full show ?thesis by simp
qed

section \<open>Properties of the population builder\<close>

lemma scen_load_codes: "load_codes scen_codes = Inr scen_codes"
  by (simp add: load_codes_def scen_codes_def object_dtype_def upper_def upper_char_def)

lemma strip_scen:
  "strip_chars PUNCTUATION ''.CA'' = ''CA''" "strip_chars PUNCTUATION ''.TX'' = ''TX''"
  "strip_chars PUNCTUATION ''.NY'' = ''NY''"
  by (simp_all add: strip_chars_def PUNCTUATION_def)

lemma scen_merge_files:
  "merge_files scen90 [scen00, scen10] =
     Inr \<lparr> w_cols = [''1990'', ''1995'', ''2000'', ''2005'', ''2010'', ''2015''],
           w_rows = [(''.CA'', [29760021, 31493525, 33871648, 35827943, 37253956, 38918045])] \<rparr>"
  by (simp add: scen90_def scen00_def scen10_def merge_state_def
      suffix_clash_def suffixed_def merge_inner_def)

lemma scen_build_pop: "build_pop scen_codes [scen90, scen00, scen10] = Inr scen_out"
  unfolding build_pop_def scen_load_codes
  by (simp add: scen_merge_files strip_scen suffix_clash_def suffixed_def merge_inner_def
      melt_def short_cols_def short_vals_def scen_out_def scen_codes_def upt_rec
      del: merge_files.simps)

lemma over_merge_files:
  "merge_files over90 [over00, over10] =
     Inr \<lparr> w_cols = [''1990_x'', ''2000_x'', ''1990_y'', ''2000_y''],
           w_rows = [(''.CA'', [29760021, 33871648, 29760021, 33871648])] \<rparr>"
  by (simp add: over90_def over00_def over10_def merge_state_def
      suffix_clash_def suffixed_def merge_inner_def)

lemma over_build_pop: "build_pop scen_codes [over90, over00, over10] = Inr []"
  unfolding build_pop_def scen_load_codes
  by (simp add: over_merge_files strip_scen suffix_clash_def suffixed_def merge_inner_def
      melt_def short_cols_def short_vals_def scen_codes_def
      del: merge_files.simps)

lemma merge_state_states:
  assumes "merge_state l r = Inr m"
  shows "fst ` set (w_rows m) = fst ` set (w_rows l) \<inter> fst ` set (w_rows r)"
proof -
  from assms have m: "w_rows m = map (\<lambda>((s, vs), (s', ws)). (s, vs @ ws))
                            (merge_inner (\<lambda>a b. fst a = fst b) (w_rows l) (w_rows r))"
    by (auto simp: merge_state_def split: if_splits)
  show ?thesis unfolding m set_map set_merge_inner by force
qed

lemma merge_files_states:
  "merge_files f fs = Inr m \<Longrightarrow>
   fst ` set (w_rows m) = fst ` set (w_rows f) \<inter> (\<Inter>t \<in> set fs. fst ` set (w_rows t))"
proof (induction fs arbitrary: f)
  case Nil
  then show ?case by simp
next
  case (Cons t ts)
  from Cons.prems obtain m' where a: "merge_state f t = Inr m'" and b: "merge_files m' ts = Inr m"
    by (auto split: sum.splits)
  from Cons.IH [OF b] merge_state_states [OF a] show ?case by auto
qed

lemma set_melt:
  "set (melt cols rows) = {(k, cols ! j, vs ! j) | j k vs. j < length cols \<and> (k, vs) \<in> set rows}"
  by (auto simp: melt_def) blast

lemma melt_keys: "fst ` set (melt cols rows) = (if cols = [] then {} else fst ` set rows)"
proof (cases "cols = []")
  case True
  then show ?thesis by (simp add: melt_def)
next
  case False
  then have "0 < length cols" by simp
  then show ?thesis unfolding set_melt using False by force
qed

lemma load_codes_states:
  "load_codes codes = Inr letters \<Longrightarrow> map c_state letters = map c_state codes"
  by (auto simp: load_codes_def comp_def split: if_splits)

lemma build_pop_Inr:
  assumes "build_pop codes files = Inr out"
  obtains letters f fs pop_df where
    "load_codes codes = Inr letters" "files = f # fs" "merge_files f fs = Inr pop_df"
    "out = map (\<lambda>((s, c), y, v). \<lparr> p_state = s, p_code = c, p_year = y, p_pop = v \<rparr>)
             (melt (short_cols (w_cols pop_df))
                (map (\<lambda>(l, (s, vs)). ((s, c_code l), short_vals (w_cols pop_df) vs))
                   (merge_inner (\<lambda>l r. c_state l = Str (fst r)) letters
                      (map (\<lambda>(s, vs). (strip_chars PUNCTUATION s, vs)) (w_rows pop_df)))))"
  using assms unfolding build_pop_def
  by (auto simp: Let_def split: sum.splits list.splits if_splits)

lemma build_pop_keys:
  assumes "build_pop codes files = Inr out"
  obtains letters f fs pop_df where
    "load_codes codes = Inr letters" "files = f # fs" "merge_files f fs = Inr pop_df"
    "(\<lambda>p. (p_state p, p_code p)) ` set out =
       (if short_cols (w_cols pop_df) = [] then {}
        else {(strip_chars PUNCTUATION raw, c_code l) | raw l.
                raw \<in> fst ` set (w_rows pop_df) \<and> l \<in> set letters
                \<and> c_state l = Str (strip_chars PUNCTUATION raw)})"
proof -
  from assms obtain letters f fs pop_df where
    a: "load_codes codes = Inr letters" "files = f # fs" "merge_files f fs = Inr pop_df"
    and o: "out = map (\<lambda>((s, c), y, v). \<lparr> p_state = s, p_code = c, p_year = y, p_pop = v \<rparr>)
             (melt (short_cols (w_cols pop_df))
                (map (\<lambda>(l, (s, vs)). ((s, c_code l), short_vals (w_cols pop_df) vs))
                   (merge_inner (\<lambda>l r. c_state l = Str (fst r)) letters
                      (map (\<lambda>(s, vs). (strip_chars PUNCTUATION s, vs)) (w_rows pop_df)))))"
    by (rule build_pop_Inr)
  let ?rows = "map (\<lambda>(l, (s, vs)). ((s, c_code l), short_vals (w_cols pop_df) vs))
                   (merge_inner (\<lambda>l r. c_state l = Str (fst r)) letters
                      (map (\<lambda>(s, vs). (strip_chars PUNCTUATION s, vs)) (w_rows pop_df)))"
  have "(\<lambda>p. (p_state p, p_code p)) ` set out = fst ` set (melt (short_cols (w_cols pop_df)) ?rows)"
    unfolding o by (force simp: image_image)
  also have "\<dots> = (if short_cols (w_cols pop_df) = [] then {} else fst ` set ?rows)"
    by (rule melt_keys)
  also have "fst ` set ?rows = {(strip_chars PUNCTUATION raw, c_code l) | raw l.
                raw \<in> fst ` set (w_rows pop_df) \<and> l \<in> set letters
                \<and> c_state l = Str (strip_chars PUNCTUATION raw)}"
    unfolding set_map set_merge_inner by force
  finally show ?thesis using a that by blast
qed

lemma short_cols_empty: "(short_cols cols = []) = (\<not> (\<exists>c \<in> set cols. length c \<le> 4))"
  by (auto simp: short_cols_def filter_empty_conv)

lemma suffixed_disjoint: "set cols \<inter> set other = {} \<Longrightarrow> suffixed sfx other cols = cols"
  unfolding suffixed_def by (intro map_idI) auto

lemma merge_state_disjoint_cols:
  assumes "merge_state l r = Inr m" and "set (w_cols l) \<inter> set (w_cols r) = {}"
  shows "w_cols m = w_cols l @ w_cols r"
proof -
  from assms(1) have "w_cols m = suffixed ''_x'' (w_cols r) (w_cols l) @ suffixed ''_y'' (w_cols l) (w_cols r)"
    by (auto simp: merge_state_def split: if_splits)
  moreover from assms(2) have "set (w_cols r) \<inter> set (w_cols l) = {}" by auto
  ultimately show ?thesis using assms(2) by (simp add: suffixed_disjoint)
qed

text \<open>
  Claim C5, as the code has it. \<open>build_pop\<close> merges the three cleaned tables with inner
  joins on the state as it is written in the files, strips the punctuation from it and
  joins the result to the code table. A state is in its output if and only if its name
  as written is in all three cleaned tables, its name without the punctuation is in the
  code table, and at least one value column with a name of at most 4 characters is left
  after the merges. (The merges rename a column that two tables share, and the renamed
  columns are dropped for their length; when the columns of the three tables are all
  different, the merges leave them as they are.) On the three files of the scenario the
  output is the six rows of California and no other state.
\<close>

theorem build_pop_states:
  assumes "build_pop codes [t0, t1, t2] = Inr out"
  shows "(\<exists>m. merge_files t0 [t1, t2] = Inr m
           \<and> (\<forall>s. (s \<in> p_state ` set out) =
                 ((\<exists>c \<in> set (w_cols m). length c \<le> 4)
                  \<and> (\<exists>raw. raw \<in> fst ` set (w_rows t0) \<and> raw \<in> fst ` set (w_rows t1)
                        \<and> raw \<in> fst ` set (w_rows t2)
                        \<and> strip_chars PUNCTUATION raw = s \<and> Str s \<in> c_state ` set codes)))
           \<and> (set (w_cols t0) \<inter> set (w_cols t1) = {}
                \<and> (set (w_cols t0) \<union> set (w_cols t1)) \<inter> set (w_cols t2) = {}
               \<longrightarrow> w_cols m = w_cols t0 @ w_cols t1 @ w_cols t2))
         \<and> build_pop scen_codes [scen90, scen00, scen10] = Inr scen_out"
proof -
  from assms obtain letters f fs m where
    l: "load_codes codes = Inr letters" and f: "[t0, t1, t2] = f # fs"
    and m: "merge_files f fs = Inr m"
    and k: "(\<lambda>p. (p_state p, p_code p)) ` set out =
       (if short_cols (w_cols m) = [] then {}
        else {(strip_chars PUNCTUATION raw, c_code l) | raw l.
                raw \<in> fst ` set (w_rows m) \<and> l \<in> set letters
                \<and> c_state l = Str (strip_chars PUNCTUATION raw)})"
    by (rule build_pop_keys)
  from f have ff: "f = t0" "fs = [t1, t2]" by simp_all
  have st: "fst ` set (w_rows m) = fst ` set (w_rows t0) \<inter> fst ` set (w_rows t1) \<inter> fst ` set (w_rows t2)"
    using merge_files_states [OF m] unfolding ff by auto
  have cs: "c_state ` set letters = c_state ` set codes"
    using load_codes_states [OF l] by (metis set_map)
  have ps: "p_state ` set out = fst ` (\<lambda>p. (p_state p, p_code p)) ` set out"
    by (simp add: image_image)
  have A: "(s \<in> p_state ` set out) =
                 ((\<exists>c \<in> set (w_cols m). length c \<le> 4)
                  \<and> (\<exists>raw. raw \<in> fst ` set (w_rows t0) \<and> raw \<in> fst ` set (w_rows t1)
                        \<and> raw \<in> fst ` set (w_rows t2)
                        \<and> strip_chars PUNCTUATION raw = s \<and> Str s \<in> c_state ` set codes))" for s
  proof (cases "short_cols (w_cols m) = []")
    case True
    then show ?thesis unfolding ps k by (simp add: short_cols_empty)
  next
    case False
    then have e: "\<exists>c \<in> set (w_cols m). length c \<le> 4" by (simp add: short_cols_empty)
    have "(s \<in> p_state ` set out) =
            (\<exists>raw l. raw \<in> fst ` set (w_rows m) \<and> l \<in> set letters
                \<and> c_state l = Str (strip_chars PUNCTUATION raw) \<and> s = strip_chars PUNCTUATION raw)"
      unfolding ps k using False by force
    also have "\<dots> = (\<exists>raw. raw \<in> fst ` set (w_rows m) \<and> strip_chars PUNCTUATION raw = s
                        \<and> Str s \<in> c_state ` set letters)"
      by (metis (no_types, lifting) image_iff)
    finally show ?thesis using e unfolding st cs by auto
  qed
  have B: "w_cols m = w_cols t0 @ w_cols t1 @ w_cols t2"
    if "set (w_cols t0) \<inter> set (w_cols t1) = {}
        \<and> (set (w_cols t0) \<union> set (w_cols t1)) \<inter> set (w_cols t2) = {}"
  proof -
    from m obtain m' where a: "merge_state t0 t1 = Inr m'" and b: "merge_state m' t2 = Inr m"
      unfolding ff by (auto split: sum.splits)
    from that have c1: "w_cols m' = w_cols t0 @ w_cols t1"
      by (intro merge_state_disjoint_cols [OF a]) simp
    with that have "set (w_cols m') \<inter> set (w_cols t2) = {}" by simp
    from merge_state_disjoint_cols [OF b this] c1 show ?thesis by simp
  qed
  from m A B have "\<exists>m. merge_files t0 [t1, t2] = Inr m
           \<and> (\<forall>s. (s \<in> p_state ` set out) =
                 ((\<exists>c \<in> set (w_cols m). length c \<le> 4)
                  \<and> (\<exists>raw. raw \<in> fst ` set (w_rows t0) \<and> raw \<in> fst ` set (w_rows t1)
                        \<and> raw \<in> fst ` set (w_rows t2)
                        \<and> strip_chars PUNCTUATION raw = s \<and> Str s \<in> c_state ` set codes)))
           \<and> (set (w_cols t0) \<inter> set (w_cols t1) = {}
                \<and> (set (w_cols t0) \<union> set (w_cols t1)) \<inter> set (w_cols t2) = {}
               \<longrightarrow> w_cols m = w_cols t0 @ w_cols t1 @ w_cols t2)"
    unfolding ff by blast
  with scen_build_pop show ?thesis by simp
qed

theorem build_pop_states_witness:
  "build_pop scen_codes [scen90, scen00, scen10] = Inr scen_out
   \<and> p_state ` set scen_out = {''CA''}
   \<and> map p_year scen_out = [''1990'', ''1995'', ''2000'', ''2005'', ''2010'', ''2015'']
   \<and> (\<exists>raw. raw \<in> fst ` set (w_rows scen90) \<and> raw \<in> fst ` set (w_rows scen00)
          \<and> raw \<in> fst ` set (w_rows scen10)
          \<and> strip_chars PUNCTUATION raw = ''CA'' \<and> Str ''CA'' \<in> c_state ` set scen_codes)
   \<and> \<not> (\<exists>raw. raw \<in> fst ` set (w_rows scen90) \<and> raw \<in> fst ` set (w_rows scen00)
          \<and> raw \<in> fst ` set (w_rows scen10)
          \<and> strip_chars PUNCTUATION raw = ''TX'' \<and> Str ''TX'' \<in> c_state ` set scen_codes)"
proof -
  from build_pop_states [OF scen_build_pop, THEN conjunct1] obtain m where
    m: "merge_files scen90 [scen00, scen10] = Inr m"
    and s: "\<And>s. (s \<in> p_state ` set scen_out) =
                 ((\<exists>c \<in> set (w_cols m). length c \<le> 4)
                  \<and> (\<exists>raw. raw \<in> fst ` set (w_rows scen90) \<and> raw \<in> fst ` set (w_rows scen00)
                        \<and> raw \<in> fst ` set (w_rows scen10)
                        \<and> strip_chars PUNCTUATION raw = s \<and> Str s \<in> c_state ` set scen_codes))"
    by blast
  have o: "p_state ` set scen_out = {''CA''}" by (simp add: scen_out_def)
  have y: "map p_year scen_out = [''1990'', ''1995'', ''2000'', ''2005'', ''2010'', ''2015'']"
    by (simp add: scen_out_def)
  from o have "''CA'' \<in> p_state ` set scen_out" "''TX'' \<notin> p_state ` set scen_out" by simp_all
  moreover have "\<exists>c \<in> set (w_cols m). length c \<le> 4"
  proof -
    from m scen_merge_files have "w_cols m = [''1990'', ''1995'', ''2000'', ''2005'', ''2010'', ''2015'']"
      by (metis sum.inject(2) wide.select_convs(1))
    then show ?thesis by simp
  qed
  ultimately have
    "\<exists>raw. raw \<in> fst ` set (w_rows scen90) \<and> raw \<in> fst ` set (w_rows scen00)
          \<and> raw \<in> fst ` set (w_rows scen10)
          \<and> strip_chars PUNCTUATION raw = ''CA'' \<and> Str ''CA'' \<in> c_state ` set scen_codes"
    "\<not> (\<exists>raw. raw \<in> fst ` set (w_rows scen90) \<and> raw \<in> fst ` set (w_rows scen00)
          \<and> raw \<in> fst ` set (w_rows scen10)
          \<and> strip_chars PUNCTUATION raw = ''TX'' \<and> Str ''TX'' \<in> c_state ` set scen_codes)"
    using s [of "''CA''"] s [of "''TX''"] by blast+
  with o y scen_build_pop show ?thesis by blast
qed

text \<open>
  The claim as the specification states it fails when no year column is left: the third
  file repeats the years of the first two, every column is renamed and dropped, and
  California, which is in all three files and in the code table, is not in the output.
\<close>

theorem build_pop_overlapping_years:
  "build_pop scen_codes [over90, over00, over10] = Inr []
   \<and> ''.CA'' \<in> fst ` set (w_rows over90) \<and> ''.CA'' \<in> fst ` set (w_rows over00)
   \<and> ''.CA'' \<in> fst ` set (w_rows over10)
   \<and> strip_chars PUNCTUATION ''.CA'' = ''CA'' \<and> Str ''CA'' \<in> c_state ` set scen_codes"
  by (simp add: over_build_pop strip_scen) (simp add: over90_def over00_def over10_def scen_codes_def)

section \<open>The state codes of the full table\<close>

lemma upper_char_idem: "upper_char (upper_char c) = upper_char c"
  by (simp add: upper_char_def)

lemma upper_idem: "upper (upper s) = upper s"
  by (simp add: upper_def upper_char_idem)

lemma filled_upper:
  "fill0_obj (str_map upper x) = Str c \<Longrightarrow> upper c = c"
  by (cases x) (auto simp: fill0_obj_def upper_idem)

lemma load_clean_eng_gen_states:
  assumes "load_clean_eng f (GenFile gen) = Inr (GenClean g)" and "x \<in> set g"
  shows "\<exists>raw \<in> set gen. gn_state x = str_map upper (g_state raw)"
  using assms
  by (auto simp: load_clean_eng_def generation_branch_def emission_branch_def Let_def
      split: if_splits) blast

lemma merge_eng_codes:
  "e \<in> set (merge_eng g m) \<Longrightarrow> \<exists>x \<in> set g. en_code e = fill0_obj (gn_state x)"
proof -
  assume "e \<in> set (merge_eng g m)"
  then obtain l r where "(l, r) \<in> set (merge_left
          (\<lambda>l r. gn_state l = em_state r \<and> gn_year l = em_year r \<and> gn_src l = em_src r) g m)"
    and "en_code e = fill0_obj (gn_state l)"
    unfolding merge_eng_def by auto
  then show ?thesis unfolding set_merge_left by auto
qed

lemma build_eng_codes:
  assumes "build_eng files gen emi = Inr eng_df" and "e \<in> set eng_df"
  shows "en_code e \<noteq> Str ''DC''"
    and "\<exists>raw \<in> set gen. en_code e = fill0_obj (str_map upper (g_state raw))"
proof -
  from assms(1) obtain g m where
    g: "load_clean_eng (fst files) (GenFile gen) = Inr (GenClean g)"
    and o: "eng_df = filter (\<lambda>r. en_code r \<noteq> Str ''DC'')
                   (filter (\<lambda>r. en_code r \<noteq> Str ''  '')
                     (filter (\<lambda>r. en_code r \<noteq> Str ''US-TOTAL'')
                       (filter (\<lambda>r. en_code r \<noteq> Str ''US-Total'') (merge_eng g m))))"
    by (rule build_eng_Inr)
  from assms(2) show "en_code e \<noteq> Str ''DC''" unfolding o by simp
  from assms(2) have "e \<in> set (merge_eng g m)" unfolding o by simp
  then obtain x where x: "x \<in> set g" "en_code e = fill0_obj (gn_state x)"
    using merge_eng_codes by blast
  from load_clean_eng_gen_states [OF g x(1)] x(2)
  show "\<exists>raw \<in> set gen. en_code e = fill0_obj (str_map upper (g_state raw))" by auto
qed

lemma cast_year_code: "cast_year rows = Inr data \<Longrightarrow> map pp_code data = map pp_code rows"
  by (induction rows arbitrary: data) (auto split: option.splits sum.splits)

lemma fill_rows_code: "map pp_code (fill_rows m rs) = map pp_code rs"
  by (induction rs arbitrary: m) auto

lemma merge_pop_pol_code:
  assumes "x \<in> set (merge_pop_pol pop_df pol_df)"
  shows "pp_code x \<in> p_code ` set pop_df"
proof -
  from assms obtain p l where "(p, l) \<in> set (merge_left
        (\<lambda>p l. Str (p_state p) = l_state l \<and> p_code p = l_code l \<and> p_year p = l_year l)
        pop_df pol_df)" and "pp_code x = p_code p"
    unfolding merge_pop_pol_def by auto
  then show ?thesis unfolding set_merge_left by auto
qed

lemma build_pop_codes:
  assumes "build_pop codes files = Inr pop_df" and "load_codes codes = Inr letters"
  shows "p_code ` set pop_df \<subseteq> c_code ` set letters"
proof -
  from assms(1) obtain letters' f fs m where
    l: "load_codes codes = Inr letters'" and "files = f # fs" and "merge_files f fs = Inr m"
    and k: "(\<lambda>p. (p_state p, p_code p)) ` set pop_df =
       (if short_cols (w_cols m) = [] then {}
        else {(strip_chars PUNCTUATION raw, c_code l) | raw l.
                raw \<in> fst ` set (w_rows m) \<and> l \<in> set letters'
                \<and> c_state l = Str (strip_chars PUNCTUATION raw)})"
    by (rule build_pop_keys)
  from l assms(2) have e: "letters' = letters" by simp
  have "p_code ` set pop_df = snd ` (\<lambda>p. (p_state p, p_code p)) ` set pop_df"
    by (simp add: image_image)
  also have "\<dots> \<subseteq> c_code ` set letters"
    unfolding k e by (auto split: if_splits)
  finally show ?thesis .
qed

text \<open>
  Claim C1, as the code has it. The code of a row of the table returned by
  \<open>build_full\<close> is the code of a row of the energy table (the right merge keeps every
  such row): the state of a row of the generation file in upper case (or 0 where it was
  missing), so a code that is a string is upper case, and it is never "DC". The code is
  a code of the table loaded by \<open>load_codes\<close> whenever the row has a population, that
  is, whenever it matched a row of the population side; a row of a state code that is
  not in the code table is kept with its population missing.
\<close>

theorem build_full_codes:
  assumes "build_full codes pops leg gen emi = Inr out" and "r \<in> set out"
  shows "code r \<noteq> Str ''DC''
         \<and> (\<exists>g \<in> set gen. code r = fill0_obj (str_map upper (g_state g)))
         \<and> (\<forall>c. code r = Str c \<longrightarrow> upper c = c)
         \<and> (pop r \<noteq> None \<longrightarrow>
              (\<exists>letters. load_codes codes = Inr letters \<and> code r \<in> c_code ` set letters))"
proof -
  from assms(1) obtain eng_df pop_df pol_df data J P S where
    eng: "build_eng ENG gen emi = Inr eng_df" and pp: "build_pop codes pops = Inr pop_df"
    and cy: "cast_year (merge_pop_pol pop_df pol_df) = Inr data"
    and J: "J = merge_energy (ffill_per_state data) eng_df"
    and P: "P = map capita_row J" and S: "S = map (share_row P) P" and o: "out = map (rank_row S) S"
    by (rule build_full_rows)
  from assms(2) obtain j where j: "j \<in> set J" "r = rank_row S (share_row P (capita_row j))"
    unfolding o S P by auto
  have cr: "code r = code j" and pr: "pop r = pop j"
    unfolding j(2) by (simp_all add: rank_row_sel share_row_sel capita_row_sel)
  from j(1) consider
      (matched) l e where "j = join_eng (Some l, e)" "l \<in> set (ffill_per_state data)"
        "e \<in> set eng_df" "pp_code l = en_code e"
    | (alone) e where "j = join_eng (None, e)" "e \<in> set eng_df"
    unfolding J set_merge_energy by blast
  then obtain e where e: "e \<in> set eng_df" "code j = en_code e"
    by cases (auto simp: join_eng_def)
  from build_eng_codes [OF eng e(1)] e(2) cr
  have A: "code r \<noteq> Str ''DC''"
    and B: "\<exists>g \<in> set gen. code r = fill0_obj (str_map upper (g_state g))"
    by simp_all
  from B have C: "\<forall>c. code r = Str c \<longrightarrow> upper c = c"
    using filled_upper by metis
  have D: "\<exists>letters. load_codes codes = Inr letters \<and> code r \<in> c_code ` set letters"
    if "pop r \<noteq> None"
  proof -
    from that pr j(1) obtain l e' where
      l: "j = join_eng (Some l, e')" "l \<in> set (ffill_per_state data)" "pp_code l = en_code e'"
      unfolding J set_merge_energy by (auto simp: join_eng_def)
    then have cl: "code r = pp_code l" unfolding cr by (simp add: join_eng_def)
    from l(2) have "pp_code l \<in> set (map pp_code (ffill_per_state data))" by simp
    then have "pp_code l \<in> set (map pp_code (merge_pop_pol pop_df pol_df))"
      unfolding ffill_per_state_rows fill_rows_code cast_year_code [OF cy] .
    then obtain x where "x \<in> set (merge_pop_pol pop_df pol_df)" "pp_code l = pp_code x"
      by auto
    with merge_pop_pol_code [of x pop_df pol_df] have p: "pp_code l \<in> p_code ` set pop_df"
      by simp
    from pp obtain letters where lc: "load_codes codes = Inr letters"
      by (rule build_pop_Inr)
    from build_pop_codes [OF pp lc] p cl lc show ?thesis by auto
  qed
  from A B C D show ?thesis by blast
qed

theorem build_full_codes_witness:
  "build_full sample_codes sample_pops sample_leg sample_gen2 sample_emi2 = Inr sample_full
   \<and> code (sample_full ! 0) = Str ''AL'' \<and> pop (sample_full ! 0) \<noteq> None
   \<and> (\<exists>letters. load_codes sample_codes = Inr letters \<and> Str ''AL'' \<in> c_code ` set letters)
   \<and> (\<exists>g \<in> set sample_gen2. Str ''AL'' = fill0_obj (str_map upper (g_state g)))
   \<and> upper ''AL'' = ''AL''"
proof -
  have a: "code (sample_full ! 0) = Str ''AL''" "pop (sample_full ! 0) \<noteq> None"
    by (simp_all add: sample_full_def)
  from build_full_codes [OF sample_build_full sample_full_rows(1)] a
  show ?thesis using sample_build_full by simp
qed

text \<open>
  The claim as the specification states it fails: the generation file has a row for a
  state code that is not in the code table, and the table returned has that row.
\<close>

theorem build_full_code_outside_table:
  "build_full sample_codes sample_pops sample_leg sample_gen2 sample_emi2 = Inr sample_full
   \<and> load_codes sample_codes = Inr [\<lparr> c_state = Str ''Alabama'', c_code = Str ''AL'' \<rparr>]
   \<and> (\<exists>r \<in> set sample_full.
         code r = Str ''PR''
         \<and> code r \<notin> c_code ` set [\<lparr> c_state = Str ''Alabama'', c_code = Str ''AL'' \<rparr>])"
  by (simp add: sample_build_full sample_load_codes) (simp add: sample_full_def)

end
